theory Spec2Isabelle
  imports Main
begin

section \<open>Strings, dates and errors\<close>

text \<open>
  Logins, event names, review states, label texts and addresses are character lists;
  \<open>toLowerCase\<close> folds the letters A to Z, and the logins of the platform are ASCII. A text
  that is matched against a character class (the body of the issue, the \<open>APP_ID\<close> string)
  is the list of its UTF-16 code units, as the regular expression and \<open>parseInt\<close> read it.
\<close>

type_synonym code_units = "nat list"

definition units :: "string \<Rightarrow> code_units" where
  "units s = map of_char s"

definition lower_char :: "char \<Rightarrow> char" where
  "lower_char c =
     (case map_of (zip ''ABCDEFGHIJKLMNOPQRSTUVWXYZ'' ''abcdefghijklmnopqrstuvwxyz'') c of
        Some d \<Rightarrow> d
      | None \<Rightarrow> c)"

definition toLowerCase :: "string \<Rightarrow> string" where
  "toLowerCase s = map lower_char s"

definition startsWith :: "string \<Rightarrow> string \<Rightarrow> bool" where
  "startsWith s p = (take (length p) s = p)"

fun includes_str :: "string \<Rightarrow> string \<Rightarrow> bool" where
  "includes_str [] p = (p = [])"
| "includes_str (c # s) p = (startsWith (c # s) p \<or> includes_str s p)"

fun split_on :: "char \<Rightarrow> string \<Rightarrow> string list" where
  "split_on d [] = [[]]"
| "split_on d (c # s) =
     (case split_on d s of
        [] \<Rightarrow> (if c = d then [[], []] else [[c]])
      | w # ws \<Rightarrow> (if c = d then [] # w # ws else (c # w) # ws))"

text \<open>
  The class \<open>\s\<close> of a regular expression, which is also the blank of \<open>parseInt\<close>: tab,
  line feed, vertical tab, form feed, carriage return, space, U+00A0, U+1680, U+2000 to
  U+200A, U+2028, U+2029, U+202F, U+205F, U+3000 and U+FEFF. The class \<open>\d\<close> is the ten
  ASCII digits.
\<close>

definition is_space :: "nat \<Rightarrow> bool" where
  "is_space c =
     (c \<in> set [0x09, 0x0A, 0x0B, 0x0C, 0x0D, 0x20, 0xA0, 0x1680, 0x2028, 0x2029, 0x202F,
                0x205F, 0x3000, 0xFEFF]
      \<or> (0x2000 \<le> c \<and> c \<le> 0x200A))"

definition is_digit :: "nat \<Rightarrow> bool" where
  "is_digit c = (0x30 \<le> c \<and> c \<le> 0x39)"

text \<open>
  A date field of a payload, as \<open>new Date(x).getTime()\<close> reads it: absent
  (\<open>null\<close>, \<open>undefined\<close> or the empty string), present but not a date (\<open>NaN\<close>), or a
  number of milliseconds. A comparison with \<open>NaN\<close> is false.
\<close>

datatype jsdate = Absent | Invalid | At int

fun getTime :: "jsdate \<Rightarrow> int option" where
  "getTime (At t) = Some t"
| "getTime _ = None"

fun js_gt :: "int option \<Rightarrow> int option \<Rightarrow> bool" where
  "js_gt (Some a) (Some b) = (a > b)"
| "js_gt _ _ = False"

datatype error =
    NoSender
  | ParentIssue
  | IssueClosed
  | AlreadyAssignedSelf
  | AlreadyAssignedOther
  | AllTeammatesLimit
  | SenderLimit
  | NoPriceLabel
  | CollaboratorsOnly string
  | PreviouslyUnassigned string
  | FetchUserIdsFailed
  | InvalidAppId
  | AssignmentEventsFailed
  | InvalidUrl
  | InvalidTimeValue
  | ReviewsFailed
  | PullRequestsFailed
  | AssignedIssuesFailed
  | CommentFailed
  | AddAssigneeFailed
  | NotAssignedToAnyone
  | Upstream string

text \<open>The text each error is thrown with.\<close>

fun message :: "error \<Rightarrow> string" where
  "message NoSender = ''Skipping '/start' since there is no sender in the context.''"
| "message ParentIssue = ''Skipping '/start' since the issue is a parent issue''"
| "message IssueClosed = ''This issue is closed, please choose another.''"
| "message AlreadyAssignedSelf = ''You are already assigned to this task.''"
| "message AlreadyAssignedOther =
     ''This issue is already assigned. Please choose another unassigned task.''"
| "message AllTeammatesLimit =
     ''All teammates have reached their max task limit. Please close out some tasks before assigning new ones.''"
| "message SenderLimit =
     ''You have reached your max task limit. Please close out some tasks before assigning new ones.''"
| "message NoPriceLabel = ''No price label is set to calculate the duration''"
| "message (CollaboratorsOnly u) = ''Only collaborators can be assigned to this issue.''"
| "message (PreviouslyUnassigned u) =
     u @ '' you were previously unassigned from this task. You cannot be reassigned.''"
| "message FetchUserIdsFailed = ''Error while fetching user ids''"
| "message InvalidAppId = ''Invalid APP_ID''"
| "message AssignmentEventsFailed = ''Error while getting assignment events''"
| "message InvalidUrl = ''Invalid URL''"
| "message InvalidTimeValue = ''Invalid config time value''"
| "message ReviewsFailed = ''Fetching all pull request reviews failed!''"
| "message PullRequestsFailed = ''Fetching all pull requests failed!''"
| "message AssignedIssuesFailed = ''Fetching assigned issues failed!''"
| "message CommentFailed = ''Adding a comment failed!''"
| "message AddAssigneeFailed = ''Adding the assignee failed''"
| "message NotAssignedToAnyone =
     ''We detected that this task was not assigned to anyone. Please report this to the maintainers.''"
| "message (Upstream m) = m"

section \<open>Payload, configuration and platform\<close>

record user =
  user_login :: string
  user_id :: nat

record label =
  label_name :: string
  label_description :: "string option"

text \<open>
  The issue of the payload. An absent \<open>assignees\<close> or \<open>labels\<close> list is the empty list,
  as \<open>?? []\<close> makes it; an entry of \<open>assignees\<close> may be \<open>null\<close>.
\<close>

record issue =
  issue_number :: nat
  issue_body :: "code_units option"
  issue_state :: string
  issue_assignees :: "user option list"
  issue_labels :: "label list"
  issue_created_at :: jsdate

text \<open>An entry of the issue timeline, as \<open>listEventsForTimeline\<close> returns it.\<close>

record timeline_event =
  te_event :: string
  te_actor :: "user option"
  te_assignee :: "user option"
  te_created_at :: jsdate

text \<open>An item of the issue and pull request search.\<close>

record item =
  item_number :: nat
  item_html_url :: string
  item_state :: string
  item_created_at :: jsdate
  item_pull_request :: bool
  item_assignee :: "string option"
  item_assignees :: "string list"

record review =
  review_state :: string
  review_submittedAt :: jsdate
  review_author_association :: string

text \<open>
  The value \<open>JSON.parse\<close> gives for the environment variable \<open>APP_ID\<close>: the variable is
  unset or empty, holds a JSON integer, a JSON string, or text that is not JSON.
\<close>

datatype app_id_env = Unset | JsonNumber int | JsonString code_units | JsonSyntaxError

text \<open>What \<open>generateAssignmentComment\<close> returns.\<close>

record assignment_comment =
  ac_daysElapsedSinceTaskCreation :: nat
  ac_deadline :: "string option"
  ac_registeredWallet :: string
  ac_tips :: string

text \<open>
  The context of one invocation: the payload, the configuration, the environment, and the
  answers of the platform and of the modules of the handler that are not modelled here. A
  remote read that fails is \<open>None\<close>; a module that throws gives \<open>Inl\<close> with its text, which
  the handler passes on as \<open>Upstream\<close>. The entries of the record are:
  the login of the author of the comment and of the sender of the payload, the owner of
  the repository and whether it is private; the variable \<open>APP_ID\<close>; the configured
  durations and reviewer roles; the library function \<open>ms\<close> and the clock; the timeline of
  the issue, the search, the reviews and the timeline of a pull request (by owner,
  repository and number); the fallbacks of the two searches; the task limit of a user;
  whether a user is a collaborator; the numeric id of a login (0 when it has none); the
  hash of the head commit; whether creating a comment and adding assignees succeed; the
  assignees \<open>issues.get\<close> reports; and the functions that compute the deadline and
  render the comment.
\<close>

record "context" =
  comment_user :: "string option"
  payload_sender :: string
  owner_login :: string
  private_repo :: bool
  APP_ID :: app_id_env
  reviewDelayTolerance :: string
  taskStaleTimeoutDuration :: string
  rolesWithReviewAuthority :: "string list"
  ms :: "string \<Rightarrow> int option"
  now :: int
  listEventsForTimeline :: "timeline_event list option"
  search :: "string \<Rightarrow> item list option"
  reviews :: "string \<Rightarrow> string \<Rightarrow> nat \<Rightarrow> review list option"
  reviewRequestEvents :: "string \<Rightarrow> string \<Rightarrow> nat \<Rightarrow> timeline_event list option"
  getAssignedIssuesFallback :: "string \<Rightarrow> string + item list"
  getAllPullRequestsFallback :: "string \<Rightarrow> string + item list"
  getUserRoleAndTaskLimit :: "string \<Rightarrow> string + int"
  isUserCollaborator :: "string \<Rightarrow> string + bool"
  getByUsername :: "string \<Rightarrow> string + nat"
  getCommit :: "string option"
  createComment :: "string \<Rightarrow> bool"
  addAssigneesRequest :: "string list \<Rightarrow> bool"
  issuesGet :: "nat \<Rightarrow> string + string list"
  getDeadline :: "label list \<Rightarrow> string + string option"
  generateAssignmentComment ::
    "jsdate \<Rightarrow> nat \<Rightarrow> nat \<Rightarrow> string option \<Rightarrow> string + assignment_comment"
  checkTaskStale :: "int \<Rightarrow> jsdate \<Rightarrow> bool"
  assignTableComment :: "bool \<Rightarrow> assignment_comment \<Rightarrow> string"
  structuredMetadata :: "string option \<Rightarrow> nat list \<Rightarrow> label \<Rightarrow> string option \<Rightarrow> string"
  logDiff :: "string \<Rightarrow> string"

definition upstream :: "string + 'a \<Rightarrow> error + 'a" where
  "upstream r = (case r of Inl m \<Rightarrow> Inl (Upstream m) | Inr x \<Rightarrow> Inr x)"

section \<open>Reassignment history (check-assignments)\<close>

text \<open>\<open>parseInt(s, 10)\<close>: blanks, a sign, then the longest run of digits; \<open>None\<close> is \<open>NaN\<close>.\<close>

definition digit_val :: "nat \<Rightarrow> int" where
  "digit_val c = int c - 0x30"

definition digits_val :: "code_units \<Rightarrow> int" where
  "digits_val ds = foldl (\<lambda>acc c. 10 * acc + digit_val c) 0 ds"

definition parseInt :: "code_units \<Rightarrow> int option" where
  "parseInt s =
     (let r = dropWhile is_space s;
          neg = (case r of c # _ \<Rightarrow> c = of_char CHR ''-'' | [] \<Rightarrow> False);
          signed = (case r of c # _ \<Rightarrow> c = of_char CHR ''-'' \<or> c = of_char CHR ''+''
                    | [] \<Rightarrow> False);
          ds = takeWhile is_digit (if signed then tl r else r)
      in if ds = [] then None
         else Some (if neg then - digits_val ds else digits_val ds))"

definition getAppId :: "context \<Rightarrow> error + int" where
  "getAppId ctx =
     (case APP_ID ctx of
        JsonSyntaxError \<Rightarrow> Inl InvalidAppId
      | Unset \<Rightarrow> Inl InvalidAppId
      | JsonNumber n \<Rightarrow> (if n > 0 then Inr n else Inl InvalidAppId)
      | JsonString s \<Rightarrow>
          (case parseInt s of
             None \<Rightarrow> Inl InvalidAppId
           | Some n \<Rightarrow> (if n > 0 then Inr n else Inl InvalidAppId)))"

record assignment_event =
  event :: string
  actor :: "string option"
  actorId :: "nat option"
  assignee :: "string option"
  createdAt :: jsdate

definition to_assignment_event :: "timeline_event \<Rightarrow> assignment_event" where
  "to_assignment_event e =
     (case (te_actor e, te_assignee e) of
        (Some a, Some b) \<Rightarrow>
          \<lparr>event = te_event e, actor = Some (user_login a), actorId = Some (user_id a),
           assignee = Some (user_login b), createdAt = te_created_at e\<rparr>
      | _ \<Rightarrow>
          \<lparr>event = te_event e, actor = None, actorId = None, assignee = None,
           createdAt = Absent\<rparr>)"

text \<open>
  \<open>Array.prototype.sort\<close> with the comparator \<open>time(a) - time(b)\<close>: a stable sort; a
  comparison with a missing or invalid date is \<open>NaN\<close> and leaves the two in place.
\<close>

definition earlier :: "assignment_event \<Rightarrow> assignment_event \<Rightarrow> bool" where
  "earlier a b = js_gt (getTime (createdAt b)) (getTime (createdAt a))"

fun insert_event :: "assignment_event \<Rightarrow> assignment_event list \<Rightarrow> assignment_event list" where
  "insert_event x [] = [x]"
| "insert_event x (y # ys) = (if earlier y x then y # insert_event x ys else x # y # ys)"

definition sort_events :: "assignment_event list \<Rightarrow> assignment_event list" where
  "sort_events es = foldr insert_event es []"

definition getAssignmentEvents :: "context \<Rightarrow> error + assignment_event list" where
  "getAssignmentEvents ctx =
     (case listEventsForTimeline ctx of
        None \<Rightarrow> Inl AssignmentEventsFailed
      | Some data \<Rightarrow>
          Inr (sort_events
                 (map to_assignment_event
                    (filter (\<lambda>e. te_event e = ''assigned'' \<or> te_event e = ''unassigned'') data))))"

text \<open>
  The login the history is read for: the author of the comment, or the sender of the
  payload when the comment has no user (or an empty login).
\<close>

definition senderLogin :: "context \<Rightarrow> string" where
  "senderLogin ctx =
     (case comment_user ctx of
        Some l \<Rightarrow> (if toLowerCase l \<noteq> [] then toLowerCase l else toLowerCase (payload_sender ctx))
      | None \<Rightarrow> toLowerCase (payload_sender ctx))"

definition userAssignments :: "string \<Rightarrow> assignment_event list \<Rightarrow> assignment_event list" where
  "userAssignments l events = filter (\<lambda>e. map_option toLowerCase (assignee e) = Some l) events"

definition unassignedEvents :: "string \<Rightarrow> assignment_event list \<Rightarrow> assignment_event list" where
  "unassignedEvents l events = filter (\<lambda>e. event e = ''unassigned'') (userAssignments l events)"

definition botUnassigned :: "int \<Rightarrow> assignment_event \<Rightarrow> bool" where
  "botUnassigned app e = (map_option int (actorId e) = Some app)"

definition adminUnassigned :: "string \<Rightarrow> int \<Rightarrow> assignment_event \<Rightarrow> bool" where
  "adminUnassigned l app e =
     (map_option toLowerCase (actor e) \<noteq> Some l \<and> map_option int (actorId e) \<noteq> Some app)"

definition hasUserBeenUnassigned :: "context \<Rightarrow> error + bool" where
  "hasUserBeenUnassigned ctx =
     (case getAppId ctx of
        Inl e \<Rightarrow> Inl e
      | Inr app \<Rightarrow>
          (case getAssignmentEvents ctx of
             Inl e \<Rightarrow> Inl e
           | Inr events \<Rightarrow>
               (if userAssignments (senderLogin ctx) events = [] then Inr False
                else Inr (filter (botUnassigned app) (unassignedEvents (senderLogin ctx) events) \<noteq> []
                          \<or> filter (adminUnassigned (senderLogin ctx) app)
                               (unassignedEvents (senderLogin ctx) events) \<noteq> []))))"

section \<open>Issues and pull requests (utils/issue)\<close>

text \<open>
  \<open>isParentIssue\<close>: the body matches \<open>/-\s+\[( |x)\]\s+#\d+/\<close> somewhere. Each \<open>\s+\<close> is
  followed by a character that is no blank, so taking all the blanks loses no match.
\<close>

definition parent_pattern_here :: "code_units \<Rightarrow> bool" where
  "parent_pattern_here s =
     (case s of
        c # r1 \<Rightarrow>
          c = of_char CHR ''-'' \<and> r1 \<noteq> [] \<and> is_space (hd r1) \<and>
          (case dropWhile is_space r1 of
             b # k # e # r2 \<Rightarrow>
               b = of_char CHR ''['' \<and> (k = of_char CHR '' '' \<or> k = of_char CHR ''x'') \<and>
               e = of_char CHR '']'' \<and>
               r2 \<noteq> [] \<and> is_space (hd r2) \<and>
               (case dropWhile is_space r2 of
                  h # d # _ \<Rightarrow> h = of_char CHR ''#'' \<and> is_digit d
                | _ \<Rightarrow> False)
           | _ \<Rightarrow> False)
      | [] \<Rightarrow> False)"

fun isParentIssue :: "code_units \<Rightarrow> bool" where
  "isParentIssue [] = False"
| "isParentIssue (c # s) = (parent_pattern_here (c # s) \<or> isParentIssue s)"

definition getTimeValue :: "context \<Rightarrow> string \<Rightarrow> error + int" where
  "getTimeValue ctx timeString =
     (case ms ctx timeString of
        None \<Rightarrow> Inl InvalidTimeValue
      | Some timeValue \<Rightarrow> (if timeValue \<le> 0 then Inl InvalidTimeValue else Inr timeValue))"

definition getOwnerRepoFromHtmlUrl :: "string \<Rightarrow> error + string \<times> string" where
  "getOwnerRepoFromHtmlUrl url =
     (let parts = split_on CHR ''/'' url
      in if length parts < 5 then Inl InvalidUrl else Inr (parts ! 3, parts ! 4))"

definition getAssignedIssues :: "context \<Rightarrow> string \<Rightarrow> error + item list" where
  "getAssignedIssues ctx username =
     (case search ctx (''org:'' @ owner_login ctx @ '' assignee:'' @ username @ '' is:open is:issue'') of
        Some issues \<Rightarrow>
          Inr (filter (\<lambda>i. item_state i = ''open'' \<and>
                            (item_assignee i = Some username \<or> username \<in> set (item_assignees i)))
                 issues)
      | None \<Rightarrow> upstream (getAssignedIssuesFallback ctx username))"

definition getAllPullRequests :: "context \<Rightarrow> string \<Rightarrow> string \<Rightarrow> error + item list" where
  "getAllPullRequests ctx state username =
     (case search ctx (''org:'' @ owner_login ctx @ '' author:'' @ username @ '' state:'' @ state @ '' is:pr'') of
        Some prs \<Rightarrow> Inr prs
      | None \<Rightarrow> Inl PullRequestsFailed)"

definition getAllPullRequestsWithRetry :: "context \<Rightarrow> string \<Rightarrow> string \<Rightarrow> error + item list" where
  "getAllPullRequestsWithRetry ctx state username =
     (case getAllPullRequests ctx state username of
        Inr prs \<Rightarrow> Inr prs
      | Inl _ \<Rightarrow> upstream (getAllPullRequestsFallback ctx username))"

definition getOpenedPullRequestsForUser :: "context \<Rightarrow> string \<Rightarrow> error + item list" where
  "getOpenedPullRequestsForUser ctx username = getAllPullRequestsWithRetry ctx ''open'' username"

definition getReviewRequestsTimeline :: "context \<Rightarrow> nat \<Rightarrow> string \<Rightarrow> string \<Rightarrow> timeline_event list" where
  "getReviewRequestsTimeline ctx pullNumber owner repo =
     (case reviewRequestEvents ctx owner repo pullNumber of
        Some data \<Rightarrow>
          filter (\<lambda>e. te_event e = ''review_requested'' \<or> te_event e = ''review_request_removed'') data
      | None \<Rightarrow> [])"

text \<open>
  \<open>getLatestReviewStatus\<close> asks for \<open>reviews(last: 10)\<close>: the last ten reviews of the pull
  request. A failure of the query is passed on as it is.
\<close>

definition getLatestReviewStatus ::
  "context \<Rightarrow> string \<Rightarrow> string \<Rightarrow> nat \<Rightarrow> error + review option \<times> bool" where
  "getLatestReviewStatus ctx owner repo pullNumber =
     (case reviews ctx owner repo pullNumber of
        None \<Rightarrow> Inl (Upstream ''GraphQL request failed'')
      | Some all_reviews \<Rightarrow>
          (let reviewNodes = drop (length all_reviews - 10) all_reviews
           in Inr (if reviewNodes = [] then None else Some (last reviewNodes),
                   list_ex (\<lambda>r. review_state r = ''CHANGES_REQUESTED'') reviewNodes)))"

text \<open>
  \<open>lastChangesRequestedTime\<close> is \<open>null\<close> without a \<open>submittedAt\<close>; it is tested for
  truthiness, and \<open>null\<close>, \<open>NaN\<close> and \<open>0\<close> are falsy.
\<close>

definition lastChangesRequestedTime :: "review \<Rightarrow> int option" where
  "lastChangesRequestedTime latestReview = getTime (review_submittedAt latestReview)"

definition truthy_time :: "int option \<Rightarrow> bool" where
  "truthy_time t = (t \<noteq> None \<and> t \<noteq> Some 0)"

definition isReviewRequestedAfterChanges :: "review \<Rightarrow> timeline_event list \<Rightarrow> bool" where
  "isReviewRequestedAfterChanges latestReview reviewRequests =
     (if truthy_time (lastChangesRequestedTime latestReview)
      then list_ex (\<lambda>request. js_gt (getTime (te_created_at request))
                                (lastChangesRequestedTime latestReview)) reviewRequests
      else False)"

definition older_than :: "context \<Rightarrow> item \<Rightarrow> int \<Rightarrow> bool" where
  "older_than ctx pr tolerance =
     (case getTime (item_created_at pr) of
        Some created \<Rightarrow> now ctx - created \<ge> tolerance
      | None \<Rightarrow> False)"

text \<open>
  One round of the loop of \<open>getAvailableOpenedPullRequests\<close>, on the two result lists.
  The entries of the search result are objects, so the guard \<open>if (!openedPullRequest)
  continue\<close> never fires. \<open>changes.push\<close> followed by \<open>changes.pop\<close> is written as
  \<open>butlast\<close> of the extended list. The clock is read once per invocation.
\<close>

definition classify_pull ::
  "context \<Rightarrow> item \<Rightarrow> item list \<times> item list \<Rightarrow> error + item list \<times> item list" where
  "classify_pull ctx openedPullRequest acc =
     (case acc of (approved, changes) \<Rightarrow>
      (case getOwnerRepoFromHtmlUrl (item_html_url openedPullRequest) of
         Inl e \<Rightarrow> Inl e
       | Inr (owner, repo) \<Rightarrow>
      (case getLatestReviewStatus ctx owner repo (item_number openedPullRequest) of
         Inl e \<Rightarrow> Inl e
       | Inr (latestReview, hasUnresolvedChanges) \<Rightarrow>
           (let latestReviewState = map_option review_state latestReview
            in if latestReviewState = Some ''APPROVED'' \<or> \<not> hasUnresolvedChanges
               then Inr (approved @ [openedPullRequest], changes)
               else
                 (case latestReview of
                    Some r \<Rightarrow>
                      (if review_state r = ''CHANGES_REQUESTED''
                       then (if isReviewRequestedAfterChanges r
                                  (getReviewRequestsTimeline ctx (item_number openedPullRequest) owner repo)
                             then Inr (approved @ [openedPullRequest],
                                       butlast (changes @ [openedPullRequest]))
                             else Inr (approved, changes @ [openedPullRequest]))
                       else Inr (approved, changes))
                  | None \<Rightarrow>
                      (case getTimeValue ctx (reviewDelayTolerance ctx) of
                         Inl e \<Rightarrow> Inl e
                       | Inr tolerance \<Rightarrow>
                           Inr (if older_than ctx openedPullRequest tolerance
                                then approved @ [openedPullRequest] else approved, changes)))))))"

fun classify_pulls ::
  "context \<Rightarrow> item list \<Rightarrow> item list \<times> item list \<Rightarrow> error + item list \<times> item list" where
  "classify_pulls ctx [] acc = Inr acc"
| "classify_pulls ctx (pr # prs) acc =
     (case classify_pull ctx pr acc of
        Inl e \<Rightarrow> Inl e
      | Inr acc' \<Rightarrow> classify_pulls ctx prs acc')"

definition getAvailableOpenedPullRequests ::
  "context \<Rightarrow> string \<Rightarrow> error + item list \<times> item list" where
  "getAvailableOpenedPullRequests ctx username =
     (if reviewDelayTolerance ctx = [] then Inr ([], [])
      else (case getOpenedPullRequestsForUser ctx username of
              Inl e \<Rightarrow> Inl e
            | Inr openedPullRequests \<Rightarrow> classify_pulls ctx openedPullRequests ([], [])))"

subsection \<open>The second implementation, over the list of reviews\<close>

definition getAllPullRequests_rest :: "context \<Rightarrow> string \<Rightarrow> string \<Rightarrow> error + item list" where
  "getAllPullRequests_rest ctx state username =
     (case search ctx (''org:'' @ owner_login ctx @ '' author:'' @ username @ '' state:'' @ state) of
        Some prs \<Rightarrow> Inr prs
      | None \<Rightarrow> Inl PullRequestsFailed)"

definition getOpenedPullRequests :: "context \<Rightarrow> string \<Rightarrow> error + item list" where
  "getOpenedPullRequests ctx username =
     (case getAllPullRequests_rest ctx ''open'' username of
        Inl e \<Rightarrow> Inl e
      | Inr prs \<Rightarrow> Inr (filter (\<lambda>pr. item_pull_request pr \<and> item_state pr = ''open'') prs))"

definition getAllPullRequestReviews ::
  "context \<Rightarrow> nat \<Rightarrow> string \<Rightarrow> string \<Rightarrow> error + review list" where
  "getAllPullRequestReviews ctx pullNumber owner repo =
     (case reviews ctx owner repo pullNumber of
        None \<Rightarrow> Inl ReviewsFailed
      | Some rs \<Rightarrow>
          Inr (filter (\<lambda>r. review_author_association r \<in> set (rolesWithReviewAuthority ctx)) rs))"

definition classify_pull_rest ::
  "context \<Rightarrow> item \<Rightarrow> item list \<times> review list \<Rightarrow> error + item list \<times> review list" where
  "classify_pull_rest ctx openedPullRequest acc =
     (case acc of (approved, changes) \<Rightarrow>
      (case getOwnerRepoFromHtmlUrl (item_html_url openedPullRequest) of
         Inl e \<Rightarrow> Inl e
       | Inr (owner, repo) \<Rightarrow>
      (case getAllPullRequestReviews ctx (item_number openedPullRequest) owner repo of
         Inl e \<Rightarrow> Inl e
       | Inr rs \<Rightarrow>
           (let approved' = (if rs \<noteq> [] \<and> find (\<lambda>r. review_state r = ''APPROVED'') rs \<noteq> None
                             then approved @ [openedPullRequest] else approved);
                changes' = (if rs \<noteq> []
                            then (case find (\<lambda>r. review_state r = ''CHANGES_REQUESTED'') rs of
                                    Some changesRequested \<Rightarrow> changes @ [changesRequested]
                                  | None \<Rightarrow> changes)
                            else changes)
            in if rs = []
               then (case getTimeValue ctx (reviewDelayTolerance ctx) of
                       Inl e \<Rightarrow> Inl e
                     | Inr tolerance \<Rightarrow>
                         Inr (if older_than ctx openedPullRequest tolerance
                              then approved' @ [openedPullRequest] else approved', changes'))
               else Inr (approved', changes')))))"

fun classify_pulls_rest ::
  "context \<Rightarrow> item list \<Rightarrow> item list \<times> review list \<Rightarrow> error + item list \<times> review list" where
  "classify_pulls_rest ctx [] acc = Inr acc"
| "classify_pulls_rest ctx (pr # prs) acc =
     (case classify_pull_rest ctx pr acc of
        Inl e \<Rightarrow> Inl e
      | Inr acc' \<Rightarrow> classify_pulls_rest ctx prs acc')"

definition getAvailableOpenedPullRequests_rest ::
  "context \<Rightarrow> string \<Rightarrow> error + item list \<times> review list" where
  "getAvailableOpenedPullRequests_rest ctx username =
     (if reviewDelayTolerance ctx = [] then Inr ([], [])
      else (case getOpenedPullRequests ctx username of
              Inl e \<Rightarrow> Inl e
            | Inr openedPullRequests \<Rightarrow> classify_pulls_rest ctx openedPullRequests ([], [])))"

section \<open>The start handler (handlers/shared/start)\<close>

text \<open>
  \<open>handleTaskLimitChecks\<close>: \<open>False\<close> drops the user, an error rejects the request. The call
  \<open>hasUserBeenUnassigned(context, username)\<close> passes a second argument that the callee
  does not declare.
\<close>

definition adjustedAssignedIssues :: "item list \<Rightarrow> item list \<Rightarrow> item list \<Rightarrow> int" where
  "adjustedAssignedIssues assignedIssues approved changes =
     int (length assignedIssues) - int (length approved) + int (length changes)"

definition handleTaskLimitChecks :: "string \<Rightarrow> context \<Rightarrow> string \<Rightarrow> error + bool" where
  "handleTaskLimitChecks username ctx sender =
     (case getAvailableOpenedPullRequests ctx username of
        Inl e \<Rightarrow> Inl e
      | Inr (approved, changes) \<Rightarrow>
     (case getAssignedIssues ctx username of
        Inl e \<Rightarrow> Inl e
      | Inr assignedIssues \<Rightarrow>
     (case upstream (getUserRoleAndTaskLimit ctx username) of
        Inl e \<Rightarrow> Inl e
      | Inr limit \<Rightarrow>
          (if \<bar>adjustedAssignedIssues assignedIssues approved changes\<bar> \<ge> limit then Inr False
           else (case hasUserBeenUnassigned ctx of
                   Inl e \<Rightarrow> Inl e
                 | Inr True \<Rightarrow> Inl (PreviouslyUnassigned username)
                 | Inr False \<Rightarrow> Inr True)))))"

text \<open>
  The remote writes of the handler, in the order they are made. A function that writes
  returns the writes it made together with its result; \<open>seq\<close> runs a second step when
  the first one returned. Calls of the logger write nothing to the platform and are left
  out; the error a \<open>throw logger.error(...)\<close> throws is kept.
\<close>

datatype effect = CreateComment string | AddAssignees nat "string list"

definition seq ::
  "effect list \<times> (error + 'a) \<Rightarrow> ('a \<Rightarrow> effect list \<times> (error + 'b)) \<Rightarrow> effect list \<times> (error + 'b)" where
  "seq m f =
     (case m of
        (w, Inl e) \<Rightarrow> (w, Inl e)
      | (w, Inr x) \<Rightarrow> (case f x of (w', r) \<Rightarrow> (w @ w', r)))"

text \<open>
  \<open>addCommentToIssue\<close>: nothing is posted for an empty message; the payload of an issue
  comment always has an issue.
\<close>

definition addCommentToIssue :: "context \<Rightarrow> string \<Rightarrow> effect list \<times> (error + unit)" where
  "addCommentToIssue ctx msg =
     (if msg = [] then ([], Inr ())
      else if createComment ctx msg then ([CreateComment msg], Inr ())
      else ([], Inl CommentFailed))"

definition confirmMultiAssignment ::
  "context \<Rightarrow> nat \<Rightarrow> string list \<Rightarrow> effect list \<times> (error + unit)" where
  "confirmMultiAssignment ctx issueNumber usernames =
     (if length usernames < 2 then ([], Inr ())
      else (case upstream (issuesGet ctx issueNumber) of
              Inl e \<Rightarrow> ([], Inl e)
            | Inr assignees \<Rightarrow>
                (if assignees = [] then ([], Inl NotAssignedToAnyone)
                 else if private_repo ctx \<and> length assignees \<le> 1
                 then addCommentToIssue ctx
                        (logDiff ctx ''This task belongs to a private repo and can only be assigned to one user without an official paid GitHub subscription.'')
                 else ([], Inr ()))))"

definition addAssignees :: "context \<Rightarrow> nat \<Rightarrow> string list \<Rightarrow> effect list \<times> (error + unit)" where
  "addAssignees ctx issueNo assignees =
     (if addAssigneesRequest ctx assignees
      then seq ([AddAssignees issueNo assignees], Inr ())
             (\<lambda>_. confirmMultiAssignment ctx issueNo assignees)
      else ([], Inl AddAssigneeFailed))"

fun getByUsername_each :: "context \<Rightarrow> string list \<Rightarrow> error + nat list" where
  "getByUsername_each ctx [] = Inr []"
| "getByUsername_each ctx (u # us) =
     (case upstream (getByUsername ctx u) of
        Inl e \<Rightarrow> Inl e
      | Inr i \<Rightarrow> (case getByUsername_each ctx us of Inl e \<Rightarrow> Inl e | Inr ids \<Rightarrow> Inr (i # ids)))"

definition fetchUserIds :: "context \<Rightarrow> string list \<Rightarrow> error + nat list" where
  "fetchUserIds ctx username =
     (case getByUsername_each ctx username of
        Inl e \<Rightarrow> Inl e
      | Inr ids \<Rightarrow> (if filter (\<lambda>i. i = 0) ids \<noteq> [] then Inl FetchUserIdsFailed else Inr ids))"

text \<open>The loop over \<open>teammates\<close> that fills \<open>toAssign\<close>.\<close>

fun toAssign_of :: "context \<Rightarrow> string list \<Rightarrow> string \<Rightarrow> error + string list" where
  "toAssign_of ctx [] sender = Inr []"
| "toAssign_of ctx (u # us) sender =
     (case handleTaskLimitChecks u ctx sender of
        Inl e \<Rightarrow> Inl e
      | Inr ok \<Rightarrow>
          (case toAssign_of ctx us sender of
             Inl e \<Rightarrow> Inl e
           | Inr rest \<Rightarrow> Inr (if ok then u # rest else rest)))"

text \<open>The iterations over the labels marked \<open>collaborator only\<close> and over \<open>toAssign\<close>.\<close>

fun collaborators_all :: "context \<Rightarrow> string list \<Rightarrow> error + unit" where
  "collaborators_all ctx [] = Inr ()"
| "collaborators_all ctx (u # us) =
     (case upstream (isUserCollaborator ctx u) of
        Inl e \<Rightarrow> Inl e
      | Inr c \<Rightarrow> (if c then collaborators_all ctx us else Inl (CollaboratorsOnly u)))"

fun collaborator_labels :: "context \<Rightarrow> label list \<Rightarrow> string list \<Rightarrow> error + unit" where
  "collaborator_labels ctx [] toAssign = Inr ()"
| "collaborator_labels ctx (l # ls) toAssign =
     (if (case label_description l of
            Some d \<Rightarrow> includes_str d ''collaborator only''
          | None \<Rightarrow> False)
      then (case collaborators_all ctx toAssign of
              Inl e \<Rightarrow> Inl e
            | Inr _ \<Rightarrow> collaborator_labels ctx ls toAssign)
      else collaborator_labels ctx ls toAssign)"

definition parent_issue_comment :: string where
  "parent_issue_comment =
     ''```diff'' @ [CHR 0x0A] @
     ''# Please select a child issue from the specification checklist to work on. The '/start' command is disabled on parent issues.'' @
     [CHR 0x0A] @ ''```''"

text \<open>
  Modelled from the spec: the constant \<open>ISSUE_TYPE.CLOSED\<close> of the types module, the state
  of a closed work item (open/closed).
\<close>

definition ISSUE_TYPE_CLOSED :: string where
  "ISSUE_TYPE_CLOSED = ''closed''"

text \<open>The result of a handler: its content and its HTTP status.\<close>

datatype result = Result string nat

definition priceLabel_of :: "label list \<Rightarrow> label option" where
  "priceLabel_of labels = find (\<lambda>l. startsWith (label_name l) ''Price: '') labels"

text \<open>The end of \<open>start\<close>, from \<open>getDeadline\<close> on: the two writes and what is read for them.\<close>

definition assign_and_comment ::
  "context \<Rightarrow> issue \<Rightarrow> user \<Rightarrow> string list \<Rightarrow> label \<Rightarrow> effect list \<times> (error + result)" where
  "assign_and_comment ctx issue sender toAssign priceLabel =
     seq ([], upstream (getDeadline ctx (issue_labels issue))) (\<lambda>deadline.
     seq ([], fetchUserIds ctx toAssign) (\<lambda>toAssignIds.
     seq ([], upstream (generateAssignmentComment ctx (issue_created_at issue)
                          (issue_number issue) (user_id sender) deadline)) (\<lambda>assignmentComment.
     seq (addAssignees ctx (issue_number issue) toAssign) (\<lambda>_.
     seq ([], getTimeValue ctx (taskStaleTimeoutDuration ctx)) (\<lambda>timeout.
     seq (addCommentToIssue ctx
            (assignTableComment ctx (checkTaskStale ctx timeout (issue_created_at issue))
               assignmentComment
             @ [CHR 0x0A] @ ac_tips assignmentComment @ [CHR 0x0A]
             @ structuredMetadata ctx (ac_deadline assignmentComment) toAssignIds priceLabel
                 (map_option (take 7) (getCommit ctx)))) (\<lambda>_.
     ([], Inr (Result ''Task assigned successfully'' 200))))))))"

text \<open>The first gate of \<open>start\<close>: \<open>issue.body && isParentIssue(issue.body)\<close>.\<close>

definition body_is_parent :: "issue \<Rightarrow> bool" where
  "body_is_parent issue =
     (case issue_body issue of Some body \<Rightarrow> body \<noteq> [] \<and> isParentIssue body | None \<Rightarrow> False)"

definition start ::
  "context \<Rightarrow> issue \<Rightarrow> user option \<Rightarrow> string list \<Rightarrow> effect list \<times> (error + result)" where
  "start ctx issue sender teammates =
     (case sender of
        None \<Rightarrow> ([], Inl NoSender)
      | Some sender \<Rightarrow>
          (if body_is_parent issue
           then seq (addCommentToIssue ctx parent_issue_comment) (\<lambda>_. ([], Inl ParentIssue))
           else if issue_state issue = ISSUE_TYPE_CLOSED then ([], Inl IssueClosed)
           else if issue_assignees issue \<noteq> []
           then ([], Inl (if find (\<lambda>assignee. map_option user_login assignee = Some (user_login sender))
                               (issue_assignees issue) \<noteq> None
                          then AlreadyAssignedSelf else AlreadyAssignedOther))
           else
             (case toAssign_of ctx (teammates @ [user_login sender]) (user_login sender) of
                Inl e \<Rightarrow> ([], Inl e)
              | Inr toAssign \<Rightarrow>
                  (if toAssign = [] \<and> length (teammates @ [user_login sender]) > 1
                   then ([], Inl AllTeammatesLimit)
                   else if toAssign = [] then ([], Inl SenderLimit)
                   else
                     (case priceLabel_of (issue_labels issue) of
                        None \<Rightarrow> ([], Inl NoPriceLabel)
                      | Some priceLabel \<Rightarrow>
                          (case collaborator_labels ctx (issue_labels issue) toAssign of
                             Inl e \<Rightarrow> ([], Inl e)
                           | Inr _ \<Rightarrow> assign_and_comment ctx issue sender toAssign priceLabel))))))"

section \<open>Example payloads\<close>

definition alice :: user where
  "alice = \<lparr>user_login = ''alice'', user_id = 1\<rparr>"

definition bob :: user where
  "bob = \<lparr>user_login = ''bob'', user_id = 2\<rparr>"

definition carol :: user where
  "carol = \<lparr>user_login = ''carol'', user_id = 3\<rparr>"

definition app_bot :: user where
  "app_bot = \<lparr>user_login = ''app[bot]'', user_id = 99\<rparr>"

text \<open>
  A context in which alice wrote the comment, the application has the id 99, nobody has
  open issues, pull requests or history, every limit is 2, and every write succeeds.
\<close>

definition example_context :: "context" where
  "example_context =
     \<lparr>comment_user = Some ''alice'', payload_sender = ''alice'', owner_login = ''org'',
      private_repo = False, APP_ID = JsonNumber 99,
      reviewDelayTolerance = ''1 Day'', taskStaleTimeoutDuration = ''30 Days'',
      rolesWithReviewAuthority = [''OWNER'', ''MEMBER''],
      ms = (\<lambda>s. if s = ''1 Day'' then Some 86400000
                 else if s = ''30 Days'' then Some 2592000000 else None),
      now = 1000000000,
      listEventsForTimeline = Some [],
      search = (\<lambda>q. Some []),
      reviews = (\<lambda>owner repo n. Some []),
      reviewRequestEvents = (\<lambda>owner repo n. Some []),
      getAssignedIssuesFallback = (\<lambda>u. Inr []),
      getAllPullRequestsFallback = (\<lambda>u. Inr []),
      getUserRoleAndTaskLimit = (\<lambda>u. Inr 2),
      isUserCollaborator = (\<lambda>u. Inr True),
      getByUsername = (\<lambda>u. Inr 7),
      getCommit = Some ''0123456789abcdef'',
      createComment = (\<lambda>m. True),
      addAssigneesRequest = (\<lambda>us. True),
      issuesGet = (\<lambda>n. Inr [''alice'']),
      getDeadline = (\<lambda>ls. Inr (Some ''Mon, Jan 5, 12:00 AM UTC'')),
      generateAssignmentComment = (\<lambda>created n i d.
        Inr \<lparr>ac_daysElapsedSinceTaskCreation = 0, ac_deadline = d,
             ac_registeredWallet = ''0x0'', ac_tips = ''tips''\<rparr>),
      checkTaskStale = (\<lambda>timeout created. False),
      assignTableComment = (\<lambda>stale c. ''table''),
      structuredMetadata = (\<lambda>d ids l rev. ''metadata''),
      logDiff = (\<lambda>m. m)\<rparr>"

definition timeline_entry :: "string \<Rightarrow> user \<Rightarrow> user \<Rightarrow> int \<Rightarrow> timeline_event" where
  "timeline_entry k a b t =
     \<lparr>te_event = k, te_actor = Some a, te_assignee = Some b, te_created_at = At t\<rparr>"

text \<open>Alice assigned herself and was unassigned by the application.\<close>

definition bot_unassigned_context :: "context" where
  "bot_unassigned_context = example_context\<lparr>listEventsForTimeline :=
     Some [timeline_entry ''unassigned'' app_bot alice 20,
           timeline_entry ''assigned'' alice alice 10]\<rparr>"

text \<open>Alice assigned herself and unassigned herself.\<close>

definition self_unassigned_context :: "context" where
  "self_unassigned_context = example_context\<lparr>listEventsForTimeline :=
     Some [timeline_entry ''assigned'' alice alice 10,
           timeline_entry ''unassigned'' alice alice 20]\<rparr>"

text \<open>Carol assigned bob and unassigned him; alice writes the comment.\<close>

definition admin_unassigned_bob_context :: "context" where
  "admin_unassigned_bob_context = example_context\<lparr>listEventsForTimeline :=
     Some [timeline_entry ''assigned'' carol bob 10,
           timeline_entry ''unassigned'' carol bob 20]\<rparr>"

text \<open>An open issue with a price label and no assignee, and the same without the price.\<close>

definition example_issue :: issue where
  "example_issue =
     \<lparr>issue_number = 1, issue_body = Some (units ''Fix the parser''), issue_state = ''open'',
      issue_assignees = [],
      issue_labels = [\<lparr>label_name = ''Price: 3 Days'', label_description = None\<rparr>],
      issue_created_at = At 0\<rparr>"

definition unpriced_issue :: issue where
  "unpriced_issue =
     example_issue\<lparr>issue_labels := [\<lparr>label_name = ''Priority: 1'', label_description = None\<rparr>]\<rparr>"

definition open_issue_of :: "string \<Rightarrow> item" where
  "open_issue_of u =
     \<lparr>item_number = 5, item_html_url = ''https://github.com/org/repo/issues/5'',
      item_state = ''open'', item_created_at = At 0, item_pull_request = False,
      item_assignee = Some u, item_assignees = [u]\<rparr>"

text \<open>Alice has one open issue; the limit is 2, then 1, then 0 for everybody.\<close>

definition one_issue_context :: "context" where
  "one_issue_context = example_context\<lparr>search :=
     (\<lambda>q. if q = ''org:org assignee:alice is:open is:issue'' then Some [open_issue_of ''alice'']
          else Some [])\<rparr>"

definition at_limit_context :: "context" where
  "at_limit_context = one_issue_context\<lparr>getUserRoleAndTaskLimit := (\<lambda>u. Inr 1)\<rparr>"

definition no_capacity_context :: "context" where
  "no_capacity_context = example_context\<lparr>getUserRoleAndTaskLimit := (\<lambda>u. Inr 0)\<rparr>"

text \<open>
  An open pull request of alice, opened a thousand seconds before \<open>now\<close>, which both
  searches for her pull requests return.
\<close>

definition example_pull :: item where
  "example_pull =
     \<lparr>item_number = 7, item_html_url = ''https://github.com/org/repo/pull/7'',
      item_state = ''open'', item_created_at = At 999000000, item_pull_request = True,
      item_assignee = None, item_assignees = []\<rparr>"

definition pull_context :: "review list \<Rightarrow> timeline_event list \<Rightarrow> context" where
  "pull_context rs events = example_context
     \<lparr>search := (\<lambda>q. if q = ''org:org author:alice state:open is:pr''
                        \<or> q = ''org:org author:alice state:open''
                     then Some [example_pull] else Some []),
      reviews := (\<lambda>owner repo n. Some rs),
      reviewRequestEvents := (\<lambda>owner repo n. Some events)\<rparr>"

definition changes_requested_review :: review where
  "changes_requested_review =
     \<lparr>review_state = ''CHANGES_REQUESTED'', review_submittedAt = At 100,
      review_author_association = ''OWNER''\<rparr>"

definition approved_review :: review where
  "approved_review =
     \<lparr>review_state = ''APPROVED'', review_submittedAt = At 50,
      review_author_association = ''OWNER''\<rparr>"

definition review_requested_event :: timeline_event where
  "review_requested_event =
     \<lparr>te_event = ''review_requested'', te_actor = Some alice, te_assignee = None,
      te_created_at = At 200\<rparr>"

text \<open>Changes were requested at 100 and a review was requested again at 200.\<close>

definition rerequested_context :: "context" where
  "rerequested_context = pull_context [changes_requested_review] [review_requested_event]"

text \<open>Changes were requested and nothing followed.\<close>

definition changes_pending_context :: "context" where
  "changes_pending_context = pull_context [changes_requested_review] []"

text \<open>The same as \<open>rerequested_context\<close>, with no \<open>reviewDelayTolerance\<close> configured.\<close>

definition no_tolerance_context :: "context" where
  "no_tolerance_context = rerequested_context\<lparr>reviewDelayTolerance := []\<rparr>"

text \<open>The pull request has no review; it has one approval.\<close>

definition unreviewed_context :: "context" where
  "unreviewed_context = pull_context [] []"

definition approved_context :: "context" where
  "approved_context = pull_context [approved_review] []"

text \<open>The example issue, assigned to bob.\<close>

definition assigned_issue :: issue where
  "assigned_issue = example_issue\<lparr>issue_assignees := [Some bob]\<rparr>"

text \<open>The example issue, assigned to bob and closed.\<close>

definition closed_assigned_issue :: issue where
  "closed_assigned_issue = assigned_issue\<lparr>issue_state := ''closed''\<rparr>"

text \<open>
  Bob assigned and unassigned himself; alice assigned herself and was unassigned by the
  application; alice writes the comment.
\<close>

definition bob_self_unassigned_context :: "context" where
  "bob_self_unassigned_context = example_context\<lparr>listEventsForTimeline :=
     Some [timeline_entry ''assigned'' bob bob 10,
           timeline_entry ''unassigned'' bob bob 20,
           timeline_entry ''assigned'' alice alice 30,
           timeline_entry ''unassigned'' app_bot alice 40]\<rparr>"

section \<open>Auxiliary predicates\<close>

text \<open>
  The errors \<open>start\<close> throws at its own gates, as opposed to those of the reads and
  writes it makes.
\<close>

fun gate_error :: "error \<Rightarrow> bool" where
  "gate_error NoSender = True"
| "gate_error ParentIssue = True"
| "gate_error IssueClosed = True"
| "gate_error AlreadyAssignedSelf = True"
| "gate_error AlreadyAssignedOther = True"
| "gate_error AllTeammatesLimit = True"
| "gate_error SenderLimit = True"
| "gate_error NoPriceLabel = True"
| "gate_error (CollaboratorsOnly u) = True"
| "gate_error (PreviouslyUnassigned u) = True"
| "gate_error _ = False"

text \<open>
  The pull requests on which the two implementations of \<open>getAvailableOpenedPullRequests\<close>
  are compared: the address and the reviews can be read, there are at most ten reviews, all
  by roles with review authority, and either there is no review and the pull request is
  older than the tolerance, or the last review approves and none requests changes, or the
  last review requests changes, none approves, and no review was requested afterwards.
\<close>

definition plain_reviews :: "context \<Rightarrow> int \<Rightarrow> item \<Rightarrow> bool" where
  "plain_reviews ctx tolerance pr =
     (case getOwnerRepoFromHtmlUrl (item_html_url pr) of
        Inl _ \<Rightarrow> False
      | Inr (owner, repo) \<Rightarrow>
          (case reviews ctx owner repo (item_number pr) of
             None \<Rightarrow> False
           | Some rs \<Rightarrow>
               length rs \<le> 10
             \<and> list_all (\<lambda>r. review_author_association r \<in> set (rolesWithReviewAuthority ctx)) rs
             \<and> (if rs = [] then older_than ctx pr tolerance
                else if review_state (last rs) = ''APPROVED''
                then list_all (\<lambda>r. review_state r \<noteq> ''CHANGES_REQUESTED'') rs
                else review_state (last rs) = ''CHANGES_REQUESTED''
                   \<and> list_all (\<lambda>r. review_state r \<noteq> ''APPROVED'') rs
                   \<and> \<not> isReviewRequestedAfterChanges (last rs)
                         (getReviewRequestsTimeline ctx (item_number pr) owner repo))))"

section \<open>Lemmas on the results and the iterations\<close>

lemma find_Some_iff_ex: "(find P xs \<noteq> None) = (\<exists>x\<in>set xs. P x)"
  by (induction xs) auto

lemma upstream_Inl: "upstream r = Inl e \<Longrightarrow> \<exists>m. e = Upstream m"
  by (cases r) (auto simp: upstream_def)

lemma seq_Inl:
  "seq m f = (w, Inl e) \<Longrightarrow>
     m = (w, Inl e) \<or> (\<exists>w1 x w2. m = (w1, Inr x) \<and> f x = (w2, Inl e) \<and> w = w1 @ w2)"
  by (auto simp: seq_def split: prod.splits sum.splits)

lemma seq_Inr:
  "seq m f = (w, Inr r) \<Longrightarrow> \<exists>w1 x w2. m = (w1, Inr x) \<and> f x = (w2, Inr r) \<and> w = w1 @ w2"
  by (auto simp: seq_def split: prod.splits sum.splits)

lemma toAssign_of_filter:
  "toAssign_of ctx us s = Inr ta \<Longrightarrow>
     ta = filter (\<lambda>u. handleTaskLimitChecks u ctx s = Inr True) us"
  by (induction us arbitrary: ta) (auto split: sum.splits if_splits)

lemma toAssign_of_returned:
  "toAssign_of ctx us s = Inr ta \<Longrightarrow> u \<in> set us \<Longrightarrow> \<exists>ok. handleTaskLimitChecks u ctx s = Inr ok"
  by (induction us arbitrary: ta) (auto split: sum.splits if_splits)

lemma toAssign_of_total:
  "\<forall>u\<in>set us. \<exists>ok. handleTaskLimitChecks u ctx s = Inr ok \<Longrightarrow> \<exists>ta. toAssign_of ctx us s = Inr ta"
  by (induction us) (auto split: sum.splits)


lemma collaborators_all_error:
  "collaborators_all ctx us = Inl e \<Longrightarrow> (\<exists>u. e = CollaboratorsOnly u) \<or> (\<exists>m. e = Upstream m)"
  by (induction us) (auto split: sum.splits if_splits dest: upstream_Inl)

lemma collaborator_labels_error:
  "collaborator_labels ctx ls ta = Inl e \<Longrightarrow> (\<exists>u. e = CollaboratorsOnly u) \<or> (\<exists>m. e = Upstream m)"
  by (induction ls) (auto split: sum.splits if_splits option.splits dest: collaborators_all_error)

lemma addCommentToIssue_error: "addCommentToIssue ctx m = (w, Inl e) \<Longrightarrow> e = CommentFailed \<and> w = []"
  by (auto simp: addCommentToIssue_def split: if_splits)

lemma addCommentToIssue_ok: "addCommentToIssue ctx m = (w, Inr x) \<Longrightarrow> w = [] \<or> w = [CreateComment m]"
  by (auto simp: addCommentToIssue_def split: if_splits)

lemma confirmMultiAssignment_error:
  "confirmMultiAssignment ctx n us = (w, Inl e) \<Longrightarrow> \<not> gate_error e"
  by (auto simp: confirmMultiAssignment_def split: if_splits sum.splits
      dest!: addCommentToIssue_error upstream_Inl)

lemma addAssignees_error: "addAssignees ctx n us = (w, Inl e) \<Longrightarrow> \<not> gate_error e"
  by (auto simp: addAssignees_def split: if_splits dest!: seq_Inl confirmMultiAssignment_error)

lemma addAssignees_ok:
  "addAssignees ctx n us = (w, Inr x) \<Longrightarrow> \<exists>rest. w = AddAssignees n us # rest"
  by (auto simp: addAssignees_def split: if_splits dest!: seq_Inr)

lemma fetchUserIds_error: "fetchUserIds ctx us = Inl e \<Longrightarrow> \<not> gate_error e"
proof -
  have "getByUsername_each ctx us = Inl e \<Longrightarrow> \<exists>m. e = Upstream m" for e
    by (induction us) (auto split: sum.splits dest: upstream_Inl)
  then show "fetchUserIds ctx us = Inl e \<Longrightarrow> \<not> gate_error e"
    by (fastforce simp: fetchUserIds_def split: sum.splits if_splits)
qed

lemma getTimeValue_error: "getTimeValue ctx s = Inl e \<Longrightarrow> e = InvalidTimeValue"
  by (auto simp: getTimeValue_def split: option.splits if_splits)

lemma assign_and_comment_error:
  assumes "assign_and_comment ctx issue sender ta pl = (w, Inl e)"
  shows "\<not> gate_error e"
  using assms unfolding assign_and_comment_def
  by (auto dest!: seq_Inl upstream_Inl fetchUserIds_error addAssignees_error getTimeValue_error
        addCommentToIssue_error)

lemma assign_and_comment_ok:
  assumes "assign_and_comment ctx issue sender ta pl = (w, Inr r)"
  shows "\<exists>rest. w = AddAssignees (issue_number issue) ta # rest"
  using assms unfolding assign_and_comment_def
  by (auto dest!: seq_Inr addAssignees_ok)

lemma classify_pull_error: "classify_pull ctx pr acc = Inl e \<Longrightarrow> \<not> gate_error e"
  by (auto simp: classify_pull_def getOwnerRepoFromHtmlUrl_def getLatestReviewStatus_def Let_def
      split: prod.splits sum.splits if_splits option.splits dest!: getTimeValue_error)

lemma classify_pulls_error: "classify_pulls ctx prs acc = Inl e \<Longrightarrow> \<not> gate_error e"
  by (induction prs arbitrary: acc) (auto split: sum.splits dest: classify_pull_error)

lemma getAvailableOpenedPullRequests_error:
  "getAvailableOpenedPullRequests ctx u = Inl e \<Longrightarrow> \<not> gate_error e"
  by (auto simp: getAvailableOpenedPullRequests_def getOpenedPullRequestsForUser_def
        getAllPullRequestsWithRetry_def
      split: if_splits sum.splits dest!: classify_pulls_error upstream_Inl)

lemma getAssignedIssues_error: "getAssignedIssues ctx u = Inl e \<Longrightarrow> \<not> gate_error e"
  by (auto simp: getAssignedIssues_def split: option.splits dest!: upstream_Inl)

lemma hasUserBeenUnassigned_error: "hasUserBeenUnassigned ctx = Inl e \<Longrightarrow> \<not> gate_error e"
  by (auto simp: hasUserBeenUnassigned_def getAppId_def getAssignmentEvents_def
      split: sum.splits app_id_env.splits option.splits if_splits)

lemma handleTaskLimitChecks_error:
  "handleTaskLimitChecks u ctx s = Inl e \<Longrightarrow> \<not> gate_error e \<or> e = PreviouslyUnassigned u"
  by (auto simp: handleTaskLimitChecks_def
      split: sum.splits prod.splits if_splits bool.splits
      dest!: getAvailableOpenedPullRequests_error getAssignedIssues_error
        hasUserBeenUnassigned_error upstream_Inl)


lemma toAssign_of_error:
  "toAssign_of ctx us s = Inl e \<Longrightarrow> \<exists>u\<in>set us. handleTaskLimitChecks u ctx s = Inl e"
  by (induction us) (auto split: sum.splits)

lemma start_shape:
  assumes "priceLabel_of (issue_labels issue) = None"
  shows "\<exists>w e. start ctx issue sender teammates = (w, Inl e)
           \<and> (w = [] \<or> (w = [CreateComment parent_issue_comment] \<and> e = ParentIssue))
           \<and> (e = NoPriceLabel \<longrightarrow> w = [])"
proof (cases sender)
  case None
  then show ?thesis by (simp add: start_def)
next
  case (Some s)
  show ?thesis
  proof (cases "body_is_parent issue")
    case True
    then have "start ctx issue sender teammates
                 = seq (addCommentToIssue ctx parent_issue_comment) (\<lambda>_. ([], Inl ParentIssue))"
      using Some by (simp add: start_def)
    then show ?thesis
      by (auto simp: seq_def addCommentToIssue_def)
  next
    case False
    then show ?thesis
      using Some assms by (auto simp: start_def split: sum.splits)
  qed
qed

lemma priceLabel_of_None:
  "(priceLabel_of ls = None) = (\<forall>l\<in>set ls. \<not> startsWith (label_name l) ''Price: '')"
  using find_Some_iff_ex [of "\<lambda>l. startsWith (label_name l) ''Price: ''" ls]
  by (auto simp: priceLabel_of_def)

lemma limit_gate:
  assumes "\<not> body_is_parent issue"
    and "issue_state issue \<noteq> ISSUE_TYPE_CLOSED"
    and "issue_assignees issue = []"
    and "toAssign_of ctx (teammates @ [user_login sender]) (user_login sender) = Inr toAssign"
  shows "(toAssign = [] \<longrightarrow>
            start ctx issue (Some sender) teammates
              = ([], Inl (if teammates \<noteq> [] then AllTeammatesLimit else SenderLimit)))
       \<and> (toAssign \<noteq> [] \<longrightarrow>
            snd (start ctx issue (Some sender) teammates) \<noteq> Inl AllTeammatesLimit
            \<and> snd (start ctx issue (Some sender) teammates) \<noteq> Inl SenderLimit)"
proof -
  have b: "start ctx issue (Some sender) teammates
              = ([], Inl (if teammates \<noteq> [] then AllTeammatesLimit else SenderLimit))"
    if "toAssign = []"
    using that assms by (auto simp: start_def)
  have c: "snd (start ctx issue (Some sender) teammates) \<noteq> Inl e"
    if "toAssign \<noteq> []" and "e = AllTeammatesLimit \<or> e = SenderLimit" for e
  proof (cases "priceLabel_of (issue_labels issue)")
    case None
    then show ?thesis using that assms by (auto simp: start_def)
  next
    case (Some priceLabel)
    show ?thesis
    proof (cases "collaborator_labels ctx (issue_labels issue) toAssign")
      case (Inl e')
      then have "start ctx issue (Some sender) teammates = ([], Inl e')"
        using Some that assms by (simp add: start_def)
      moreover have "e' \<noteq> e"
        using collaborator_labels_error [OF Inl] that(2) by auto
      ultimately show ?thesis by simp
    next
      case (Inr u)
      then have s: "start ctx issue (Some sender) teammates
                   = assign_and_comment ctx issue sender toAssign priceLabel"
        using Some that assms by (simp add: start_def)
      show ?thesis
      proof
        assume "snd (start ctx issue (Some sender) teammates) = Inl e"
        then obtain w where "assign_and_comment ctx issue sender toAssign priceLabel = (w, Inl e)"
          unfolding s by (cases "assign_and_comment ctx issue sender toAssign priceLabel") auto
        from assign_and_comment_error [OF this] that(2) show False by auto
      qed
    qed
  qed
  from b c show ?thesis by simp
qed


lemma classify_pull_shape:
  assumes "classify_pull ctx pr (a, c) = Inr (a', c')"
  shows "\<exists>x y. classify_pull ctx pr ([], []) = Inr (x, y) \<and> a' = a @ x \<and> c' = c @ y
               \<and> set x \<subseteq> {pr} \<and> set y \<subseteq> {pr}"
  using assms
  by (auto simp: classify_pull_def Let_def split: sum.splits prod.splits if_splits option.splits)

lemma classify_pulls_counted:
  "classify_pulls ctx prs (a, c) = Inr (a', c') \<Longrightarrow> p \<in> set prs \<Longrightarrow>
     \<exists>x y. classify_pull ctx p ([], []) = Inr (x, y) \<and> set x \<subseteq> set a' \<and> set y \<subseteq> set c'"
proof (induction prs arbitrary: a c)
  case Nil
  then show ?case by simp
next
  case (Cons q prs)
  then obtain a1 c1 where step: "classify_pull ctx q (a, c) = Inr (a1, c1)"
    and rest: "classify_pulls ctx prs (a1, c1) = Inr (a', c')"
    by (auto split: sum.splits)
  have mono: "set a1 \<subseteq> set a' \<and> set c1 \<subseteq> set c'"
    using rest
  proof (induction prs arbitrary: a1 c1)
    case Nil
    then show ?case by simp
  next
    case (Cons r rs)
    then obtain a2 c2 where s2: "classify_pull ctx r (a1, c1) = Inr (a2, c2)"
      and r2: "classify_pulls ctx rs (a2, c2) = Inr (a', c')"
      by (auto split: sum.splits)
    from classify_pull_shape [OF s2] have "set a1 \<subseteq> set a2 \<and> set c1 \<subseteq> set c2" by auto
    with Cons.IH [OF r2] show ?case by blast
  qed
  show ?case
  proof (cases "p = q")
    case True
    from classify_pull_shape [OF step] obtain x y where
      "classify_pull ctx q ([], []) = Inr (x, y)" "a1 = a @ x" "c1 = c @ y" by blast
    with mono True show ?thesis by auto
  next
    case False
    with Cons.prems have "p \<in> set prs" by simp
    from Cons.IH [OF rest this] show ?thesis .
  qed
qed

lemma classify_pulls_origin:
  "classify_pulls ctx prs (a, c) = Inr (a', c') \<Longrightarrow>
     (\<forall>q\<in>set a'. q \<in> set a \<or> (\<exists>x y. classify_pull ctx q ([], []) = Inr (x, y) \<and> q \<in> set x))
   \<and> (\<forall>q\<in>set c'. q \<in> set c \<or> (\<exists>x y. classify_pull ctx q ([], []) = Inr (x, y) \<and> q \<in> set y))"
proof (induction prs arbitrary: a c)
  case Nil
  then show ?case by simp
next
  case (Cons p prs)
  then obtain a1 c1 where step: "classify_pull ctx p (a, c) = Inr (a1, c1)"
    and rest: "classify_pulls ctx prs (a1, c1) = Inr (a', c')"
    by (auto split: sum.splits)
  from classify_pull_shape [OF step] obtain x y where
    xy: "classify_pull ctx p ([], []) = Inr (x, y)" "a1 = a @ x" "c1 = c @ y"
      "set x \<subseteq> {p}" "set y \<subseteq> {p}" by blast
  from Cons.IH [OF rest] xy show ?case
    by (auto 4 4)
qed

lemma latest_changes_requested:
  assumes "getOwnerRepoFromHtmlUrl (item_html_url pr) = Inr (owner, repo)"
    and "reviews ctx owner repo (item_number pr) = Some rs"
    and "rs \<noteq> []"
    and "review_state (last rs) = ''CHANGES_REQUESTED''"
    and "review_submittedAt (last rs) = At t"
    and "t \<noteq> 0"
  shows "classify_pull ctx pr ([], [])
           = Inr (if \<exists>request\<in>set (getReviewRequestsTimeline ctx (item_number pr) owner repo).
                       \<exists>t'. te_created_at request = At t' \<and> t' > t
                  then ([pr], []) else ([], [pr]))"
proof -
  let ?nodes = "drop (length rs - 10) rs"
  have ne: "?nodes \<noteq> []" using assms(3) by (cases rs) auto
  have l: "last ?nodes = last rs" using ne by (simp add: last_drop)
  have h: "list_ex (\<lambda>r. review_state r = ''CHANGES_REQUESTED'') ?nodes"
    unfolding list_ex_iff using ne l assms(4) by (metis last_in_set)
  have st: "getLatestReviewStatus ctx owner repo (item_number pr) = Inr (Some (last rs), True)"
    using assms(2) ne l h by (simp add: getLatestReviewStatus_def Let_def)
  have gt: "js_gt (getTime d) (Some t) = (\<exists>t'. d = At t' \<and> t' > t)" for d
    by (cases d) auto
  have ov: "isReviewRequestedAfterChanges (last rs) evs
              = (\<exists>request\<in>set evs. \<exists>t'. te_created_at request = At t' \<and> t' > t)" for evs
    using assms(5,6)
    by (simp add: isReviewRequestedAfterChanges_def lastChangesRequestedTime_def truthy_time_def
        list_ex_iff gt)
  show ?thesis
    using assms(1,4) st
    by (simp add: classify_pull_def ov)
qed

lemma agree_step:
  assumes url: "getOwnerRepoFromHtmlUrl (item_html_url pr) = Inr (owner, repo)"
    and rs: "reviews ctx owner repo (item_number pr) = Some rs"
    and len: "length rs \<le> 10"
    and auth: "\<forall>r\<in>set rs. review_author_association r \<in> set (rolesWithReviewAuthority ctx)"
    and tol: "getTimeValue ctx (reviewDelayTolerance ctx) = Inr tolerance"
    and kinds:
      "(rs = [] \<and> older_than ctx pr tolerance)
       \<or> (rs \<noteq> [] \<and> review_state (last rs) = ''APPROVED''
           \<and> (\<forall>r\<in>set rs. review_state r \<noteq> ''CHANGES_REQUESTED''))
       \<or> (rs \<noteq> [] \<and> review_state (last rs) = ''CHANGES_REQUESTED''
           \<and> (\<forall>r\<in>set rs. review_state r \<noteq> ''APPROVED'')
           \<and> \<not> isReviewRequestedAfterChanges (last rs)
                 (getReviewRequestsTimeline ctx (item_number pr) owner repo))"
  shows "\<exists>x y y'. classify_pull ctx pr (a, c) = Inr (a @ x, c @ y)
                \<and> classify_pull_rest ctx pr (a, c') = Inr (a @ x, c' @ y')
                \<and> length y = length y'"
proof -
  have nodes: "drop (length rs - 10) rs = rs" using len by simp
  have st: "getLatestReviewStatus ctx owner repo (item_number pr)
              = Inr (if rs = [] then None else Some (last rs),
                     list_ex (\<lambda>r. review_state r = ''CHANGES_REQUESTED'') rs)"
    using rs nodes by (simp add: getLatestReviewStatus_def Let_def)
  have all: "getAllPullRequestReviews ctx (item_number pr) owner repo = Inr rs"
    using rs auth by (simp add: getAllPullRequestReviews_def filter_id_conv)
  consider (none) "rs = []" "older_than ctx pr tolerance"
    | (appr) "rs \<noteq> []" "review_state (last rs) = ''APPROVED''"
        "\<forall>r\<in>set rs. review_state r \<noteq> ''CHANGES_REQUESTED''"
    | (chng) "rs \<noteq> []" "review_state (last rs) = ''CHANGES_REQUESTED''"
        "\<forall>r\<in>set rs. review_state r \<noteq> ''APPROVED''"
        "\<not> isReviewRequestedAfterChanges (last rs)
             (getReviewRequestsTimeline ctx (item_number pr) owner repo)"
    using kinds by blast
  then show ?thesis
  proof cases
    case none
    have "classify_pull ctx pr (a, c) = Inr (a @ [pr], c @ [])"
      using url st none by (simp add: classify_pull_def)
    moreover have "classify_pull_rest ctx pr (a, c') = Inr (a @ [pr], c' @ [])"
      using url all none tol by (simp add: classify_pull_rest_def)
    moreover have "length ([]::item list) = length ([]::review list)" by simp
    ultimately show ?thesis by blast
  next
    case appr
    have "last rs \<in> set rs" using appr(1) by simp
    then have "\<exists>r. r \<in> set rs \<and> review_state r = ''APPROVED''" using appr(2) by blast
    then have f1: "find (\<lambda>r. review_state r = ''APPROVED'') rs \<noteq> None"
      by (simp add: find_None_iff)
    have f2: "find (\<lambda>r. review_state r = ''CHANGES_REQUESTED'') rs = None"
      using appr(3) by (simp add: find_None_iff)
    have "classify_pull ctx pr (a, c) = Inr (a @ [pr], c @ [])"
      using url st appr by (simp add: classify_pull_def)
    moreover have "classify_pull_rest ctx pr (a, c') = Inr (a @ [pr], c' @ [])"
      using url all appr(1) f1 f2 by (simp add: classify_pull_rest_def)
    moreover have "length ([]::item list) = length ([]::review list)" by simp
    ultimately show ?thesis by blast
  next
    case chng
    have f1: "find (\<lambda>r. review_state r = ''APPROVED'') rs = None"
      using chng(3) by (simp add: find_None_iff)
    have "last rs \<in> set rs" using chng(1) by simp
    then have "\<exists>r. r \<in> set rs \<and> review_state r = ''CHANGES_REQUESTED''" using chng(2) by blast
    then have "find (\<lambda>r. review_state r = ''CHANGES_REQUESTED'') rs \<noteq> None"
      by (simp add: find_None_iff)
    then obtain r where f2: "find (\<lambda>r. review_state r = ''CHANGES_REQUESTED'') rs = Some r"
      by blast
    have h: "list_ex (\<lambda>r. review_state r = ''CHANGES_REQUESTED'') rs"
      using chng(1,2) unfolding list_ex_iff by (metis last_in_set)
    have "classify_pull ctx pr (a, c) = Inr (a @ [], c @ [pr])"
      using url st chng h by (simp add: classify_pull_def)
    moreover have "classify_pull_rest ctx pr (a, c') = Inr (a @ [], c' @ [r])"
      using url all chng(1) f1 f2 by (simp add: classify_pull_rest_def)
    moreover have "length [pr] = length [r]" by simp
    ultimately show ?thesis by blast
  qed
qed

lemma agree_step':
  assumes tol: "getTimeValue ctx (reviewDelayTolerance ctx) = Inr tolerance"
    and p: "plain_reviews ctx tolerance pr"
  shows "\<exists>x y y'. classify_pull ctx pr (a, c) = Inr (a @ x, c @ y)
                \<and> classify_pull_rest ctx pr (a, c') = Inr (a @ x, c' @ y')
                \<and> length y = length y'"
proof -
  from p obtain owner repo where url: "getOwnerRepoFromHtmlUrl (item_html_url pr) = Inr (owner, repo)"
    by (auto simp: plain_reviews_def split: sum.splits)
  with p obtain rs where rs: "reviews ctx owner repo (item_number pr) = Some rs"
    by (auto simp: plain_reviews_def split: option.splits)
  from p url rs have
    q: "length rs \<le> 10"
       "list_all (\<lambda>r. review_author_association r \<in> set (rolesWithReviewAuthority ctx)) rs"
       "if rs = [] then older_than ctx pr tolerance
                else if review_state (last rs) = ''APPROVED''
                then list_all (\<lambda>r. review_state r \<noteq> ''CHANGES_REQUESTED'') rs
                else review_state (last rs) = ''CHANGES_REQUESTED''
                   \<and> list_all (\<lambda>r. review_state r \<noteq> ''APPROVED'') rs
                   \<and> \<not> isReviewRequestedAfterChanges (last rs)
                         (getReviewRequestsTimeline ctx (item_number pr) owner repo)"
    by (simp_all add: plain_reviews_def)
  from q(2) have auth: "\<forall>r\<in>set rs. review_author_association r \<in> set (rolesWithReviewAuthority ctx)"
    by (simp add: list_all_iff)
  from q(3) have "(rs = [] \<and> older_than ctx pr tolerance)
       \<or> (rs \<noteq> [] \<and> review_state (last rs) = ''APPROVED''
           \<and> (\<forall>r\<in>set rs. review_state r \<noteq> ''CHANGES_REQUESTED''))
       \<or> (rs \<noteq> [] \<and> review_state (last rs) = ''CHANGES_REQUESTED''
           \<and> (\<forall>r\<in>set rs. review_state r \<noteq> ''APPROVED'')
           \<and> \<not> isReviewRequestedAfterChanges (last rs)
                 (getReviewRequestsTimeline ctx (item_number pr) owner repo))"
    by (auto simp: list_all_iff split: if_splits)
  from agree_step [OF url rs q(1) auth tol this] show ?thesis .
qed

lemma agree_loop:
  assumes tol: "getTimeValue ctx (reviewDelayTolerance ctx) = Inr tolerance"
  shows "list_all (plain_reviews ctx tolerance) prs
     \<Longrightarrow> length c = length c'
     \<Longrightarrow> \<exists>approved changes changes'.
           classify_pulls ctx prs (a, c) = Inr (approved, changes)
         \<and> classify_pulls_rest ctx prs (a, c') = Inr (approved, changes')
         \<and> length changes = length changes'"
proof (induction prs arbitrary: a c c')
  case Nil
  then show ?case by simp
next
  case (Cons pr prs)
  then have p: "plain_reviews ctx tolerance pr" and ps: "list_all (plain_reviews ctx tolerance) prs"
    by simp_all
  from agree_step' [OF tol p, of a c c'] obtain x y y' where
    s: "classify_pull ctx pr (a, c) = Inr (a @ x, c @ y)"
       "classify_pull_rest ctx pr (a, c') = Inr (a @ x, c' @ y')"
       "length y = length y'" by blast
  have "length (c @ y) = length (c' @ y')" using s(3) Cons.prems(2) by simp
  from Cons.IH [OF ps this, of "a @ x"] show ?case
    using s(1,2) by simp
qed

lemma start_no_sender: "start ctx issue None teammates = ([], Inl NoSender)"
  by (simp add: start_def)

lemma start_parent:
  "body_is_parent issue \<Longrightarrow>
     start ctx issue (Some sender) teammates
       = (if createComment ctx parent_issue_comment
          then ([CreateComment parent_issue_comment], Inl ParentIssue)
          else ([], Inl CommentFailed))"
  by (simp add: start_def seq_def addCommentToIssue_def parent_issue_comment_def)

lemma start_closed:
  "\<not> body_is_parent issue \<Longrightarrow> issue_state issue = ISSUE_TYPE_CLOSED \<Longrightarrow>
     start ctx issue (Some sender) teammates = ([], Inl IssueClosed)"
  by (simp add: start_def)

lemma start_assigned:
  assumes "\<not> body_is_parent issue" and "issue_state issue \<noteq> ISSUE_TYPE_CLOSED"
    and "issue_assignees issue \<noteq> []"
  shows "start ctx issue (Some sender) teammates
           = ([], Inl (if \<exists>a\<in>set (issue_assignees issue).
                             map_option user_login a = Some (user_login sender)
                       then AlreadyAssignedSelf else AlreadyAssignedOther))"
proof -
  have "start ctx issue (Some sender) teammates
          = ([], Inl (if find (\<lambda>assignee. map_option user_login assignee = Some (user_login sender))
                           (issue_assignees issue) \<noteq> None
                      then AlreadyAssignedSelf else AlreadyAssignedOther))"
    using assms by (simp add: start_def)
  then show ?thesis
    by (simp only: find_Some_iff_ex)
qed



lemma start_after_loop:
  assumes "\<not> body_is_parent issue" and "issue_state issue \<noteq> ISSUE_TYPE_CLOSED"
    and "issue_assignees issue = []"
    and "toAssign_of ctx (teammates @ [user_login sender]) (user_login sender) = Inr toAssign"
  shows "start ctx issue (Some sender) teammates
           = (if toAssign = []
              then ([], Inl (if teammates \<noteq> [] then AllTeammatesLimit else SenderLimit))
              else (case priceLabel_of (issue_labels issue) of
                      None \<Rightarrow> ([], Inl NoPriceLabel)
                    | Some priceLabel \<Rightarrow>
                        (case collaborator_labels ctx (issue_labels issue) toAssign of
                           Inl e \<Rightarrow> ([], Inl e)
                         | Inr _ \<Rightarrow> assign_and_comment ctx issue sender toAssign priceLabel)))"
  using assms by (simp add: start_def)



lemma assign_and_comment_success:
  assumes "getDeadline ctx (issue_labels issue) = Inr deadline"
    and "fetchUserIds ctx toAssign = Inr toAssignIds"
    and "generateAssignmentComment ctx (issue_created_at issue) (issue_number issue)
           (user_id sender) deadline = Inr assignmentComment"
    and "addAssignees ctx (issue_number issue) toAssign = (w1, Inr ())"
    and "getTimeValue ctx (taskStaleTimeoutDuration ctx) = Inr timeout"
    and "addCommentToIssue ctx
            (assignTableComment ctx (checkTaskStale ctx timeout (issue_created_at issue))
               assignmentComment
             @ [CHR 0x0A] @ ac_tips assignmentComment @ [CHR 0x0A]
             @ structuredMetadata ctx (ac_deadline assignmentComment) toAssignIds priceLabel
                 (map_option (take 7) (getCommit ctx))) = (w2, Inr ())"
  shows "assign_and_comment ctx issue sender toAssign priceLabel
           = (w1 @ w2, Inr (Result ''Task assigned successfully'' 200))"
  using assms by (simp add: assign_and_comment_def seq_def upstream_def)

text \<open>
  What \<open>hasUserBeenUnassigned\<close> computes, for the login it reads the history for (the author
  of the comment): barred exactly when one of the unassignments of that login was made by
  the application, or by an actor who is neither that login nor the application.
\<close>

lemma hasUserBeenUnassigned_for_comment_author:
  assumes "getAppId ctx = Inr app" and "getAssignmentEvents ctx = Inr events"
  shows "hasUserBeenUnassigned ctx =
           Inr (\<exists>e\<in>set events.
                  map_option toLowerCase (assignee e) = Some (senderLogin ctx) \<and>
                  event e = ''unassigned'' \<and>
                  (map_option int (actorId e) = Some app \<or>
                   (map_option toLowerCase (actor e) \<noteq> Some (senderLogin ctx) \<and>
                    map_option int (actorId e) \<noteq> Some app)))
         \<and> ((\<forall>e\<in>set events.
                map_option toLowerCase (assignee e) = Some (senderLogin ctx) \<and>
                event e = ''unassigned'' \<longrightarrow>
                map_option toLowerCase (actor e) = Some (senderLogin ctx) \<and>
                map_option int (actorId e) \<noteq> Some app)
             \<longrightarrow> hasUserBeenUnassigned ctx = Inr False)"
  using assms
  unfolding hasUserBeenUnassigned_def
  by (auto simp: filter_empty_conv userAssignments_def unassignedEvents_def botUnassigned_def
        adminUnassigned_def)

section \<open>The examples, evaluated\<close>

lemma bot_unassigned_app_id: "getAppId bot_unassigned_context = Inr 99"
  by code_simp

lemma bot_unassigned_events:
  "getAssignmentEvents bot_unassigned_context =
     Inr [\<lparr>event = ''assigned'', actor = Some ''alice'', actorId = Some 1,
           assignee = Some ''alice'', createdAt = At 10\<rparr>,
          \<lparr>event = ''unassigned'', actor = Some ''app[bot]'', actorId = Some 99,
           assignee = Some ''alice'', createdAt = At 20\<rparr>]"
  by code_simp

lemma bot_unassigned_login: "senderLogin bot_unassigned_context = ''alice''"
  by code_simp

lemma self_unassigned_app_id: "getAppId self_unassigned_context = Inr 99"
  by code_simp

lemma self_unassigned_events:
  "getAssignmentEvents self_unassigned_context =
     Inr [\<lparr>event = ''assigned'', actor = Some ''alice'', actorId = Some 1,
           assignee = Some ''alice'', createdAt = At 10\<rparr>,
          \<lparr>event = ''unassigned'', actor = Some ''alice'', actorId = Some 1,
           assignee = Some ''alice'', createdAt = At 20\<rparr>]"
  by code_simp

lemma self_unassigned_login: "senderLogin self_unassigned_context = ''alice''"
  by code_simp

lemma one_issue_pulls: "getAvailableOpenedPullRequests one_issue_context ''alice'' = Inr ([], [])"
  by code_simp

lemma one_issue_assigned:
  "getAssignedIssues one_issue_context ''alice'' = Inr [open_issue_of ''alice'']"
  by code_simp

lemma one_issue_limit: "getUserRoleAndTaskLimit one_issue_context ''alice'' = Inr 2"
  by code_simp

lemma one_issue_history: "hasUserBeenUnassigned one_issue_context = Inr False"
  by code_simp

lemma at_limit_pulls: "getAvailableOpenedPullRequests at_limit_context ''alice'' = Inr ([], [])"
  by code_simp

lemma at_limit_assigned:
  "getAssignedIssues at_limit_context ''alice'' = Inr [open_issue_of ''alice'']"
  by code_simp

lemma at_limit_limit: "getUserRoleAndTaskLimit at_limit_context ''alice'' = Inr 1"
  by code_simp

lemma example_issue_no_parent:
  "\<not> body_is_parent example_issue"
  by code_simp

lemma example_issue_open: "issue_state example_issue \<noteq> ISSUE_TYPE_CLOSED"
  by code_simp

lemma example_issue_unassigned: "issue_assignees example_issue = []"
  by code_simp

lemma no_capacity_team:
  "toAssign_of no_capacity_context ([''bob''] @ [user_login alice]) (user_login alice) = Inr []"
  by code_simp

lemma no_capacity_alone:
  "toAssign_of no_capacity_context ([] @ [user_login alice]) (user_login alice) = Inr []"
  by code_simp

lemma at_limit_team:
  "toAssign_of at_limit_context ([''bob''] @ [user_login alice]) (user_login alice) = Inr [''bob'']"
  by code_simp

lemma assigned_issue_no_parent:
  "\<not> body_is_parent assigned_issue"
  by code_simp

lemma assigned_issue_open: "issue_state assigned_issue \<noteq> ISSUE_TYPE_CLOSED"
  by code_simp

lemma assigned_issue_assignees: "issue_assignees assigned_issue = [Some bob]"
  by code_simp

lemma unpriced_issue_labels:
  "\<forall>l\<in>set (issue_labels unpriced_issue). \<not> startsWith (label_name l) ''Price: ''"
  by code_simp

lemma unpriced_start:
  "start example_context unpriced_issue (Some alice) [] = ([], Inl NoPriceLabel)"
  by code_simp

lemma team_start:
  "start example_context example_issue (Some alice) [''bob'']
     = ([AddAssignees 1 [''bob'', ''alice''],
         CreateComment (''table'' @ [CHR 0x0A] @ ''tips'' @ [CHR 0x0A] @ ''metadata'')],
        Inr (Result ''Task assigned successfully'' 200))"
  by code_simp

lemma rerequested_tolerance: "reviewDelayTolerance rerequested_context \<noteq> []"
  by code_simp

lemma rerequested_pulls:
  "getOpenedPullRequestsForUser rerequested_context ''alice'' = Inr [example_pull]"
  by code_simp

lemma rerequested_result:
  "getAvailableOpenedPullRequests rerequested_context ''alice'' = Inr ([example_pull], [])"
  by code_simp

lemma rerequested_reviews:
  "reviews rerequested_context ''org'' ''repo'' (item_number example_pull)
     = Some [changes_requested_review]"
  by code_simp

lemma pending_tolerance: "reviewDelayTolerance changes_pending_context \<noteq> []"
  by code_simp

lemma pending_pulls:
  "getOpenedPullRequestsForUser changes_pending_context ''alice'' = Inr [example_pull]"
  by code_simp

lemma pending_result:
  "getAvailableOpenedPullRequests changes_pending_context ''alice'' = Inr ([], [example_pull])"
  by code_simp

lemma pending_reviews:
  "reviews changes_pending_context ''org'' ''repo'' (item_number example_pull)
     = Some [changes_requested_review]"
  by code_simp

lemma example_pull_url:
  "getOwnerRepoFromHtmlUrl (item_html_url example_pull) = Inr (''org'', ''repo'')"
  by code_simp

lemma changes_requested_state:
  "review_state (last [changes_requested_review]) = ''CHANGES_REQUESTED''"
  by code_simp

lemma changes_requested_time: "review_submittedAt (last [changes_requested_review]) = At 100"
  by code_simp

lemma approved_tolerance:
  "getTimeValue approved_context (reviewDelayTolerance approved_context) = Inr 86400000"
  by code_simp

lemma approved_pulls:
  "getOpenedPullRequestsForUser approved_context ''alice'' = Inr [example_pull]"
  by code_simp

lemma approved_pulls_rest: "getOpenedPullRequests approved_context ''alice'' = Inr [example_pull]"
  by code_simp

lemma approved_plain: "list_all (plain_reviews approved_context 86400000) [example_pull]"
  by code_simp





lemma closed_assigned_no_parent: "\<not> body_is_parent closed_assigned_issue"
  by code_simp

lemma closed_assigned_closed: "issue_state closed_assigned_issue = ISSUE_TYPE_CLOSED"
  by code_simp

lemma example_price: "priceLabel_of (issue_labels example_issue)
    = Some \<lparr>label_name = ''Price: 3 Days'', label_description = None\<rparr>"
  by code_simp

lemma at_limit_collaborators:
  "collaborator_labels at_limit_context (issue_labels example_issue) [''bob''] = Inr ()"
  by code_simp

lemma at_limit_deadline:
  "getDeadline at_limit_context (issue_labels example_issue) = Inr (Some ''Mon, Jan 5, 12:00 AM UTC'')"
  by code_simp

lemma at_limit_ids: "fetchUserIds at_limit_context [''bob''] = Inr [7]"
  by code_simp

lemma at_limit_comment:
  "generateAssignmentComment at_limit_context (issue_created_at example_issue)
     (issue_number example_issue) (user_id alice) (Some ''Mon, Jan 5, 12:00 AM UTC'')
   = Inr \<lparr>ac_daysElapsedSinceTaskCreation = 0, ac_deadline = Some ''Mon, Jan 5, 12:00 AM UTC'',
          ac_registeredWallet = ''0x0'', ac_tips = ''tips''\<rparr>"
  by code_simp

lemma at_limit_assign:
  "addAssignees at_limit_context (issue_number example_issue) [''bob'']
     = ([AddAssignees 1 [''bob'']], Inr ())"
  by code_simp

lemma at_limit_timeout:
  "getTimeValue at_limit_context (taskStaleTimeoutDuration at_limit_context) = Inr 2592000000"
  by code_simp

lemma at_limit_post:
  "addCommentToIssue at_limit_context
     (assignTableComment at_limit_context
        (checkTaskStale at_limit_context 2592000000 (issue_created_at example_issue))
        \<lparr>ac_daysElapsedSinceTaskCreation = 0, ac_deadline = Some ''Mon, Jan 5, 12:00 AM UTC'',
          ac_registeredWallet = ''0x0'', ac_tips = ''tips''\<rparr>
      @ [CHR 0x0A]
      @ ac_tips \<lparr>ac_daysElapsedSinceTaskCreation = 0,
                  ac_deadline = Some ''Mon, Jan 5, 12:00 AM UTC'',
                  ac_registeredWallet = ''0x0'', ac_tips = ''tips''\<rparr>
      @ [CHR 0x0A]
      @ structuredMetadata at_limit_context
          (ac_deadline \<lparr>ac_daysElapsedSinceTaskCreation = 0,
                         ac_deadline = Some ''Mon, Jan 5, 12:00 AM UTC'',
                         ac_registeredWallet = ''0x0'', ac_tips = ''tips''\<rparr>)
          [7] \<lparr>label_name = ''Price: 3 Days'', label_description = None\<rparr>
          (map_option (take 7) (getCommit at_limit_context)))
   = ([CreateComment (''table'' @ [CHR 0x0A] @ ''tips'' @ [CHR 0x0A] @ ''metadata'')], Inr ())"
  by code_simp

lemma comment_author_examples:
  "getAppId bot_unassigned_context = Inr 99
   \<and> hasUserBeenUnassigned bot_unassigned_context = Inr True
   \<and> getAppId self_unassigned_context = Inr 99
   \<and> hasUserBeenUnassigned self_unassigned_context = Inr False"
  using hasUserBeenUnassigned_for_comment_author [OF bot_unassigned_app_id bot_unassigned_events]
    hasUserBeenUnassigned_for_comment_author [OF self_unassigned_app_id self_unassigned_events]
  by (simp add: bot_unassigned_app_id bot_unassigned_login self_unassigned_app_id
        self_unassigned_login toLowerCase_def lower_char_def)

section \<open>The claims\<close>

text \<open>
  C1, evaluated on the code. Carol, an administrator, unassigned bob from the issue. Alice
  starts the task with bob as a teammate: the history is read for alice, the author of the
  comment, so the check of bob finds nothing and bob passes. And when it is alice whom the
  application unassigned, the check of bob rejects the request in the name of bob.
\<close>

theorem hasUserBeenUnassigned_reads_comment_author:
  "getAssignmentEvents admin_unassigned_bob_context =
     Inr [\<lparr>event = ''assigned'', actor = Some ''carol'', actorId = Some 3,
           assignee = Some ''bob'', createdAt = At 10\<rparr>,
          \<lparr>event = ''unassigned'', actor = Some ''carol'', actorId = Some 3,
           assignee = Some ''bob'', createdAt = At 20\<rparr>]
   \<and> hasUserBeenUnassigned admin_unassigned_bob_context = Inr False
   \<and> handleTaskLimitChecks ''bob'' admin_unassigned_bob_context ''alice'' = Inr True
   \<and> handleTaskLimitChecks ''bob'' bot_unassigned_context ''alice''
       = Inl (PreviouslyUnassigned ''bob'')"
  by code_simp

theorem hasUserBeenUnassigned_reads_comment_author_witness:
  "handleTaskLimitChecks ''bob'' admin_unassigned_bob_context ''alice'' = Inr True
   \<and> handleTaskLimitChecks ''bob'' bot_unassigned_context ''alice''
       = Inl (PreviouslyUnassigned ''bob'')"
  using hasUserBeenUnassigned_reads_comment_author by blast




text \<open>
  C3. With the three counts and the limit read, the limit check lets the contributor
  through (anything but \<open>False\<close>: on to the history check) exactly when the absolute value
  of assigned - approved + changes is below the limit; without a bar in the history the
  result is then \<open>True\<close>. At the limit the contributor is dropped, one below it is not.
\<close>

theorem task_limit_check:
  assumes "getAvailableOpenedPullRequests ctx username = Inr (approved, changes)"
    and "getAssignedIssues ctx username = Inr assignedIssues"
    and "getUserRoleAndTaskLimit ctx username = Inr limit"
  shows "(handleTaskLimitChecks username ctx sender \<noteq> Inr False)
           = (\<bar>int (length assignedIssues) - int (length approved) + int (length changes)\<bar> < limit)
       \<and> (hasUserBeenUnassigned ctx = Inr False \<longrightarrow>
            (handleTaskLimitChecks username ctx sender = Inr True)
              = (\<bar>int (length assignedIssues) - int (length approved) + int (length changes)\<bar> < limit))
       \<and> (\<bar>int (length assignedIssues) - int (length approved) + int (length changes)\<bar> = limit
            \<longrightarrow> handleTaskLimitChecks username ctx sender = Inr False)
       \<and> (\<bar>int (length assignedIssues) - int (length approved) + int (length changes)\<bar> = limit - 1
            \<longrightarrow> handleTaskLimitChecks username ctx sender \<noteq> Inr False)"
  using assms
  by (auto simp: handleTaskLimitChecks_def adjustedAssignedIssues_def upstream_def
      split: sum.splits bool.splits)

theorem task_limit_check_witness:
  "handleTaskLimitChecks ''alice'' at_limit_context ''alice'' = Inr False
   \<and> handleTaskLimitChecks ''alice'' one_issue_context ''alice'' = Inr True"
  using task_limit_check [OF at_limit_pulls at_limit_assigned at_limit_limit, of "''alice''"]
    task_limit_check [OF one_issue_pulls one_issue_assigned one_issue_limit, of "''alice''"]
    one_issue_history
  by simp

text \<open>
  C4, as stated, fails: with no \<open>reviewDelayTolerance\<close> configured nothing is counted. The
  pull request is open, its last review requests changes at 100, a review was requested
  at 200, and it is neither in the approved nor in the changes list.
\<close>

theorem no_tolerance_counts_nothing:
  "getOpenedPullRequestsForUser no_tolerance_context ''alice'' = Inr [example_pull]
   \<and> getLatestReviewStatus no_tolerance_context ''org'' ''repo'' 7
       = Inr (Some changes_requested_review, True)
   \<and> getReviewRequestsTimeline no_tolerance_context 7 ''org'' ''repo'' = [review_requested_event]
   \<and> getAvailableOpenedPullRequests no_tolerance_context ''alice'' = Inr ([], [])"
  by code_simp

text \<open>
  C4, amended. When \<open>reviewDelayTolerance\<close> is configured and the function returns, an open
  pull request of the user whose last review requests changes, submitted at a time other
  than 0, is in the approved list and not in the changes list if some
  \<open>review_requested\<close> or \<open>review_request_removed\<close> event of its timeline is later than that
  review, and in the changes list and not in the approved list otherwise.
\<close>

theorem changes_requested_override:
  assumes "reviewDelayTolerance ctx \<noteq> []"
    and "getOpenedPullRequestsForUser ctx username = Inr openedPullRequests"
    and "getAvailableOpenedPullRequests ctx username = Inr (approved, changes)"
    and "pr \<in> set openedPullRequests"
    and "getOwnerRepoFromHtmlUrl (item_html_url pr) = Inr (owner, repo)"
    and "reviews ctx owner repo (item_number pr) = Some rs"
    and "rs \<noteq> []"
    and "review_state (last rs) = ''CHANGES_REQUESTED''"
    and "review_submittedAt (last rs) = At t"
    and "t \<noteq> 0"
  shows "if \<exists>request\<in>set (getReviewRequestsTimeline ctx (item_number pr) owner repo).
              \<exists>t'. te_created_at request = At t' \<and> t' > t
         then pr \<in> set approved \<and> pr \<notin> set changes
         else pr \<in> set changes \<and> pr \<notin> set approved"
proof -
  have run: "classify_pulls ctx openedPullRequests ([], []) = Inr (approved, changes)"
    using assms(1,2,3) by (simp add: getAvailableOpenedPullRequests_def)
  note verdict = latest_changes_requested [OF assms(5-10)]
  from classify_pulls_counted [OF run assms(4)] obtain x y where
    xy: "classify_pull ctx pr ([], []) = Inr (x, y)" "set x \<subseteq> set approved" "set y \<subseteq> set changes"
    by blast
  from classify_pulls_origin [OF run] have
    origin: "pr \<in> set approved \<Longrightarrow> \<exists>x y. classify_pull ctx pr ([], []) = Inr (x, y) \<and> pr \<in> set x"
       "pr \<in> set changes \<Longrightarrow> \<exists>x y. classify_pull ctx pr ([], []) = Inr (x, y) \<and> pr \<in> set y"
    by auto
  show ?thesis
  proof (cases "\<exists>request\<in>set (getReviewRequestsTimeline ctx (item_number pr) owner repo).
              \<exists>t'. te_created_at request = At t' \<and> t' > t")
    case True
    then have v: "classify_pull ctx pr ([], []) = Inr ([pr], [])"
      using verdict by simp
    with xy have "pr \<in> set approved" by auto
    moreover have "pr \<notin> set changes" using origin(2) v by auto
    ultimately show ?thesis using True by simp
  next
    case False
    then have v: "classify_pull ctx pr ([], []) = Inr ([], [pr])"
      using verdict by simp
    with xy have "pr \<in> set changes" by auto
    moreover have "pr \<notin> set approved" using origin(1) v by auto
    ultimately show ?thesis using False by simp
  qed
qed

theorem changes_requested_override_witness:
  "getAvailableOpenedPullRequests rerequested_context ''alice'' = Inr ([example_pull], [])
   \<and> (\<exists>request\<in>set (getReviewRequestsTimeline rerequested_context (item_number example_pull)
                       ''org'' ''repo'').
        \<exists>t'. te_created_at request = At t' \<and> t' > 100)
   \<and> getAvailableOpenedPullRequests changes_pending_context ''alice'' = Inr ([], [example_pull])
   \<and> \<not> (\<exists>request\<in>set (getReviewRequestsTimeline changes_pending_context (item_number example_pull)
                       ''org'' ''repo'').
        \<exists>t'. te_created_at request = At t' \<and> t' > 100)"
proof -
  have ne: "[changes_requested_review] \<noteq> []" and nz: "(100::int) \<noteq> 0" and
    mem: "example_pull \<in> set [example_pull]"
    by simp_all
  have a: "if \<exists>request\<in>set (getReviewRequestsTimeline rerequested_context (item_number example_pull)
                       ''org'' ''repo''). \<exists>t'. te_created_at request = At t' \<and> t' > 100
           then example_pull \<in> set [example_pull] \<and> example_pull \<notin> set []
           else example_pull \<in> set [] \<and> example_pull \<notin> set [example_pull]"
    by (rule changes_requested_override [OF rerequested_tolerance rerequested_pulls
          rerequested_result mem example_pull_url rerequested_reviews ne changes_requested_state
          changes_requested_time nz])
  have b: "if \<exists>request\<in>set (getReviewRequestsTimeline changes_pending_context (item_number example_pull)
                       ''org'' ''repo''). \<exists>t'. te_created_at request = At t' \<and> t' > 100
           then example_pull \<in> set [] \<and> example_pull \<notin> set [example_pull]
           else example_pull \<in> set [example_pull] \<and> example_pull \<notin> set []"
    by (rule changes_requested_override [OF pending_tolerance pending_pulls
          pending_result mem example_pull_url pending_reviews ne changes_requested_state
          changes_requested_time nz])
  from a have "\<exists>request\<in>set (getReviewRequestsTimeline rerequested_context (item_number example_pull)
                       ''org'' ''repo''). \<exists>t'. te_created_at request = At t' \<and> t' > 100"
    by (simp split: if_splits)
  moreover from b have "\<not> (\<exists>request\<in>set (getReviewRequestsTimeline changes_pending_context
                       (item_number example_pull) ''org'' ''repo'').
                     \<exists>t'. te_created_at request = At t' \<and> t' > 100)"
    by (simp split: if_splits)
  ultimately show ?thesis
    using rerequested_result pending_result by simp
qed

text \<open>
  C5, evaluated on the code. The rule of the claim is applied to the history of the author
  of the comment, not to that of the contributor being checked (the defect of C1). Carol,
  who is neither bob nor the application, unassigned bob: the rule bars bob, and the
  request of alice with bob as a teammate assigns bob. Bob only ever unassigned himself,
  and the application unassigned alice: the rule does not bar bob, and the request of
  alice with bob as a teammate is rejected in the name of bob.
\<close>

theorem history_rule_read_for_comment_author:
  "getAssignmentEvents admin_unassigned_bob_context =
     Inr [\<lparr>event = ''assigned'', actor = Some ''carol'', actorId = Some 3,
           assignee = Some ''bob'', createdAt = At 10\<rparr>,
          \<lparr>event = ''unassigned'', actor = Some ''carol'', actorId = Some 3,
           assignee = Some ''bob'', createdAt = At 20\<rparr>]
   \<and> getAppId admin_unassigned_bob_context = Inr 99
   \<and> start admin_unassigned_bob_context example_issue (Some alice) [''bob'']
       = ([AddAssignees 1 [''bob'', ''alice''],
           CreateComment (''table'' @ [CHR 0x0A] @ ''tips'' @ [CHR 0x0A] @ ''metadata'')],
          Inr (Result ''Task assigned successfully'' 200))
   \<and> getAssignmentEvents bob_self_unassigned_context =
     Inr [\<lparr>event = ''assigned'', actor = Some ''bob'', actorId = Some 2,
           assignee = Some ''bob'', createdAt = At 10\<rparr>,
          \<lparr>event = ''unassigned'', actor = Some ''bob'', actorId = Some 2,
           assignee = Some ''bob'', createdAt = At 20\<rparr>,
          \<lparr>event = ''assigned'', actor = Some ''alice'', actorId = Some 1,
           assignee = Some ''alice'', createdAt = At 30\<rparr>,
          \<lparr>event = ''unassigned'', actor = Some ''app[bot]'', actorId = Some 99,
           assignee = Some ''alice'', createdAt = At 40\<rparr>]
   \<and> start bob_self_unassigned_context example_issue (Some alice) [''bob'']
       = ([], Inl (PreviouslyUnassigned ''bob''))"
  by code_simp

theorem history_rule_read_for_comment_author_witness:
  "start bob_self_unassigned_context example_issue (Some alice) [''bob'']
     = ([], Inl (PreviouslyUnassigned ''bob''))
   \<and> fst (start admin_unassigned_bob_context example_issue (Some alice) [''bob''])
       = [AddAssignees 1 [''bob'', ''alice''],
          CreateComment (''table'' @ [CHR 0x0A] @ ''tips'' @ [CHR 0x0A] @ ''metadata'')]"
  using history_rule_read_for_comment_author by simp

text \<open>
  C6, as stated, fails: alice names herself as a teammate and is written twice; bob, named
  twice, is written twice.
\<close>

theorem duplicate_logins_are_kept:
  "start example_context example_issue (Some alice) [''alice'']
     = ([AddAssignees 1 [''alice'', ''alice''],
         CreateComment (''table'' @ [CHR 0x0A] @ ''tips'' @ [CHR 0x0A] @ ''metadata'')],
        Inr (Result ''Task assigned successfully'' 200))
   \<and> start example_context example_issue (Some alice) [''bob'', ''bob'']
     = ([AddAssignees 1 [''bob'', ''bob'', ''alice''],
         CreateComment (''table'' @ [CHR 0x0A] @ ''tips'' @ [CHR 0x0A] @ ''metadata'')],
        Inr (Result ''Task assigned successfully'' 200))"
  by code_simp

text \<open>
  C6, amended. The list submitted to the checks is the named teammates, in their order and
  with their repetitions, followed by the login of the requester. When \<open>start\<close> succeeds,
  its first write assigns exactly the entries of that list that passed the checks.
\<close>

theorem assignees_written_without_deduplication:
  assumes "start ctx issue (Some sender) teammates = (w, Inr r)"
  shows "\<exists>rest. w = AddAssignees (issue_number issue)
                      (filter (\<lambda>u. handleTaskLimitChecks u ctx (user_login sender) = Inr True)
                         (teammates @ [user_login sender])) # rest"
proof -
  have early: "\<not> body_is_parent issue
     \<and> issue_state issue \<noteq> ISSUE_TYPE_CLOSED \<and> issue_assignees issue = []"
    using assms by (auto simp: start_def split: if_splits dest!: seq_Inr)
  obtain toAssign where ta: "toAssign_of ctx (teammates @ [user_login sender]) (user_login sender) = Inr toAssign"
    using assms early by (auto simp: start_def split: sum.splits)
  have "\<exists>priceLabel. assign_and_comment ctx issue sender toAssign priceLabel = (w, Inr r)"
    using assms early ta by (auto simp: start_def split: if_splits option.splits sum.splits)
  then have "\<exists>rest. w = AddAssignees (issue_number issue) toAssign # rest"
    by (auto dest: assign_and_comment_ok)
  then show ?thesis using toAssign_of_filter [OF ta] by simp
qed

theorem assignees_written_without_deduplication_witness:
  "\<exists>rest. [AddAssignees 1 [''bob'', ''alice''],
           CreateComment (''table'' @ [CHR 0x0A] @ ''tips'' @ [CHR 0x0A] @ ''metadata'')]
          = AddAssignees (issue_number example_issue)
              (filter (\<lambda>u. handleTaskLimitChecks u example_context (user_login alice) = Inr True)
                 ([''bob''] @ [user_login alice])) # rest"
  by (rule assignees_written_without_deduplication [OF team_start])

text \<open>
  C7. Past the first gates and with every check returning, the list to assign is the
  list of the contributors that passed: one who fails the limit check is left out and the
  others stay. The request is rejected for the limit exactly when nobody is left, with the
  teammates text when teammates were named and the sender text when none was. When
  somebody is left the request goes on with those who are left: to the price gate, the
  collaborator gate and the assignment, none of which gives a limit error; and when the
  later steps succeed, the request succeeds and its first write assigns those who are
  left.
\<close>

theorem limit_drops_individually:
  assumes "\<not> body_is_parent issue"
    and "issue_state issue \<noteq> ISSUE_TYPE_CLOSED"
    and "issue_assignees issue = []"
    and "toAssign_of ctx (teammates @ [user_login sender]) (user_login sender) = Inr toAssign"
  shows "toAssign = filter (\<lambda>u. handleTaskLimitChecks u ctx (user_login sender) = Inr True)
                      (teammates @ [user_login sender])
       \<and> (toAssign = [] \<longrightarrow>
            start ctx issue (Some sender) teammates
              = ([], Inl (if teammates \<noteq> [] then AllTeammatesLimit else SenderLimit)))
       \<and> (toAssign \<noteq> [] \<longrightarrow>
            start ctx issue (Some sender) teammates
              = (case priceLabel_of (issue_labels issue) of
                   None \<Rightarrow> ([], Inl NoPriceLabel)
                 | Some priceLabel \<Rightarrow>
                     (case collaborator_labels ctx (issue_labels issue) toAssign of
                        Inl e \<Rightarrow> ([], Inl e)
                      | Inr _ \<Rightarrow> assign_and_comment ctx issue sender toAssign priceLabel)))
       \<and> (toAssign \<noteq> [] \<longrightarrow>
            snd (start ctx issue (Some sender) teammates) \<noteq> Inl AllTeammatesLimit
            \<and> snd (start ctx issue (Some sender) teammates) \<noteq> Inl SenderLimit)
       \<and> (\<forall>priceLabel deadline toAssignIds assignmentComment w1 timeout w2.
            toAssign \<noteq> []
            \<and> priceLabel_of (issue_labels issue) = Some priceLabel
            \<and> collaborator_labels ctx (issue_labels issue) toAssign = Inr ()
            \<and> getDeadline ctx (issue_labels issue) = Inr deadline
            \<and> fetchUserIds ctx toAssign = Inr toAssignIds
            \<and> generateAssignmentComment ctx (issue_created_at issue) (issue_number issue)
                 (user_id sender) deadline = Inr assignmentComment
            \<and> addAssignees ctx (issue_number issue) toAssign = (w1, Inr ())
            \<and> getTimeValue ctx (taskStaleTimeoutDuration ctx) = Inr timeout
            \<and> addCommentToIssue ctx
                 (assignTableComment ctx (checkTaskStale ctx timeout (issue_created_at issue))
                    assignmentComment
                  @ [CHR 0x0A] @ ac_tips assignmentComment @ [CHR 0x0A]
                  @ structuredMetadata ctx (ac_deadline assignmentComment) toAssignIds priceLabel
                      (map_option (take 7) (getCommit ctx))) = (w2, Inr ())
            \<longrightarrow> start ctx issue (Some sender) teammates
                  = (w1 @ w2, Inr (Result ''Task assigned successfully'' 200))
                \<and> (\<exists>rest. w1 = AddAssignees (issue_number issue) toAssign # rest))
       \<and> message AllTeammatesLimit
           = ''All teammates have reached their max task limit. Please close out some tasks before assigning new ones.''
       \<and> message SenderLimit
           = ''You have reached your max task limit. Please close out some tasks before assigning new ones.''"
proof -
  note run = start_after_loop [OF assms]
  have a: "toAssign = filter (\<lambda>u. handleTaskLimitChecks u ctx (user_login sender) = Inr True)
                      (teammates @ [user_login sender])"
    using assms(4) by (rule toAssign_of_filter)
  have b: "toAssign = [] \<longrightarrow>
            start ctx issue (Some sender) teammates
              = ([], Inl (if teammates \<noteq> [] then AllTeammatesLimit else SenderLimit))"
    using run by simp
  have c: "toAssign \<noteq> [] \<longrightarrow>
            start ctx issue (Some sender) teammates
              = (case priceLabel_of (issue_labels issue) of
                   None \<Rightarrow> ([], Inl NoPriceLabel)
                 | Some priceLabel \<Rightarrow>
                     (case collaborator_labels ctx (issue_labels issue) toAssign of
                        Inl e \<Rightarrow> ([], Inl e)
                      | Inr _ \<Rightarrow> assign_and_comment ctx issue sender toAssign priceLabel))"
    using run by simp
  have d: "toAssign \<noteq> [] \<longrightarrow>
            snd (start ctx issue (Some sender) teammates) \<noteq> Inl AllTeammatesLimit
            \<and> snd (start ctx issue (Some sender) teammates) \<noteq> Inl SenderLimit"
    using limit_gate [OF assms] by simp
  have e: "start ctx issue (Some sender) teammates
                  = (w1 @ w2, Inr (Result ''Task assigned successfully'' 200))
                \<and> (\<exists>rest. w1 = AddAssignees (issue_number issue) toAssign # rest)"
    if "toAssign \<noteq> []"
      and "priceLabel_of (issue_labels issue) = Some priceLabel"
      and "collaborator_labels ctx (issue_labels issue) toAssign = Inr ()"
      and "getDeadline ctx (issue_labels issue) = Inr deadline"
      and "fetchUserIds ctx toAssign = Inr toAssignIds"
      and "generateAssignmentComment ctx (issue_created_at issue) (issue_number issue)
                 (user_id sender) deadline = Inr assignmentComment"
      and "addAssignees ctx (issue_number issue) toAssign = (w1, Inr ())"
      and "getTimeValue ctx (taskStaleTimeoutDuration ctx) = Inr timeout"
      and "addCommentToIssue ctx
                 (assignTableComment ctx (checkTaskStale ctx timeout (issue_created_at issue))
                    assignmentComment
                  @ [CHR 0x0A] @ ac_tips assignmentComment @ [CHR 0x0A]
                  @ structuredMetadata ctx (ac_deadline assignmentComment) toAssignIds priceLabel
                      (map_option (take 7) (getCommit ctx))) = (w2, Inr ())"
    for priceLabel deadline toAssignIds assignmentComment w1 timeout w2
  proof -
    have "start ctx issue (Some sender) teammates
            = assign_and_comment ctx issue sender toAssign priceLabel"
      using run that(1,2,3) by simp
    also have "\<dots> = (w1 @ w2, Inr (Result ''Task assigned successfully'' 200))"
      by (rule assign_and_comment_success [OF that(4-9)])
    finally show ?thesis
      using addAssignees_ok [OF that(7)] by simp
  qed
  from a b c d e show ?thesis
    by (simp only: message.simps) blast
qed

theorem limit_drops_individually_witness:
  "start no_capacity_context example_issue (Some alice) [''bob''] = ([], Inl AllTeammatesLimit)
   \<and> start no_capacity_context example_issue (Some alice) [] = ([], Inl SenderLimit)
   \<and> [''bob''] = filter (\<lambda>u. handleTaskLimitChecks u at_limit_context (user_login alice) = Inr True)
                    ([''bob''] @ [user_login alice])
   \<and> start at_limit_context example_issue (Some alice) [''bob'']
       = ([AddAssignees 1 [''bob'']]
          @ [CreateComment (''table'' @ [CHR 0x0A] @ ''tips'' @ [CHR 0x0A] @ ''metadata'')],
          Inr (Result ''Task assigned successfully'' 200))"
proof -
  note team = limit_drops_individually [OF example_issue_no_parent example_issue_open
      example_issue_unassigned no_capacity_team]
  note alone = limit_drops_individually [OF example_issue_no_parent example_issue_open
      example_issue_unassigned no_capacity_alone]
  note dropped = limit_drops_individually [OF example_issue_no_parent example_issue_open
      example_issue_unassigned at_limit_team]
  from team [THEN conjunct2, THEN conjunct1]
  have a: "start no_capacity_context example_issue (Some alice) [''bob'']
             = ([], Inl AllTeammatesLimit)"
    by simp
  from alone [THEN conjunct2, THEN conjunct1]
  have b: "start no_capacity_context example_issue (Some alice) [] = ([], Inl SenderLimit)"
    by simp
  note c = dropped [THEN conjunct1]
  have ne: "[''bob''] \<noteq> []" by simp
  from dropped [THEN conjunct2, THEN conjunct2, THEN conjunct2, THEN conjunct2, THEN conjunct1,
      rule_format, OF conjI [OF ne conjI [OF example_price conjI [OF at_limit_collaborators
        conjI [OF at_limit_deadline conjI [OF at_limit_ids conjI [OF at_limit_comment
        conjI [OF at_limit_assign conjI [OF at_limit_timeout at_limit_post]]]]]]]],
      THEN conjunct1]
  have d: "start at_limit_context example_issue (Some alice) [''bob'']
       = ([AddAssignees 1 [''bob'']]
          @ [CreateComment (''table'' @ [CHR 0x0A] @ ''tips'' @ [CHR 0x0A] @ ''metadata'')],
          Inr (Result ''Task assigned successfully'' 200))" .
  from a b c d show ?thesis by (intro conjI)
qed

text \<open>
  C8, as stated, fails: the issue is closed and assigned to bob. The request is rejected,
  but with the reason of the closed gate, the same for bob and for alice.
\<close>

theorem closed_issue_hides_assignment_reason:
  "issue_assignees closed_assigned_issue = [Some bob]
   \<and> start example_context closed_assigned_issue (Some bob) [] = ([], Inl IssueClosed)
   \<and> start example_context closed_assigned_issue (Some alice) [] = ([], Inl IssueClosed)"
  by code_simp

text \<open>
  C8, amended. A request on an issue that has an assignee is always rejected. The gates
  before this one keep their reasons: no sender, a parent issue (after its comment),
  a closed issue. When the sender is known and the issue is neither a parent nor closed,
  the reason is one text when the sender is among the assignees and another when not.
\<close>

theorem already_assigned_rejected:
  assumes "issue_assignees issue \<noteq> []"
  shows "(\<exists>w e. start ctx issue sender teammates = (w, Inl e))
       \<and> (sender = None \<longrightarrow> start ctx issue sender teammates = ([], Inl NoSender))
       \<and> (\<forall>s. sender = Some s \<and> body_is_parent issue \<longrightarrow>
              start ctx issue sender teammates
                = (if createComment ctx parent_issue_comment
                   then ([CreateComment parent_issue_comment], Inl ParentIssue)
                   else ([], Inl CommentFailed)))
       \<and> (\<forall>s. sender = Some s \<and> \<not> body_is_parent issue
              \<and> issue_state issue = ISSUE_TYPE_CLOSED \<longrightarrow>
              start ctx issue sender teammates = ([], Inl IssueClosed))
       \<and> (\<forall>s. sender = Some s \<and> \<not> body_is_parent issue
              \<and> issue_state issue \<noteq> ISSUE_TYPE_CLOSED \<longrightarrow>
              start ctx issue sender teammates
                = ([], Inl (if \<exists>a\<in>set (issue_assignees issue).
                                  map_option user_login a = Some (user_login s)
                            then AlreadyAssignedSelf else AlreadyAssignedOther)))
       \<and> message AlreadyAssignedSelf = ''You are already assigned to this task.''
       \<and> message AlreadyAssignedOther
           = ''This issue is already assigned. Please choose another unassigned task.''"
proof -
  have none: "sender = None \<longrightarrow> start ctx issue sender teammates = ([], Inl NoSender)"
    by (simp add: start_no_sender)
  have parent: "\<forall>s. sender = Some s \<and> body_is_parent issue \<longrightarrow>
              start ctx issue sender teammates
                = (if createComment ctx parent_issue_comment
                   then ([CreateComment parent_issue_comment], Inl ParentIssue)
                   else ([], Inl CommentFailed))"
    by (simp add: start_parent)
  have closed: "\<forall>s. sender = Some s \<and> \<not> body_is_parent issue
              \<and> issue_state issue = ISSUE_TYPE_CLOSED \<longrightarrow>
              start ctx issue sender teammates = ([], Inl IssueClosed)"
    by (simp add: start_closed)
  have assigned: "\<forall>s. sender = Some s \<and> \<not> body_is_parent issue
              \<and> issue_state issue \<noteq> ISSUE_TYPE_CLOSED \<longrightarrow>
              start ctx issue sender teammates
                = ([], Inl (if \<exists>a\<in>set (issue_assignees issue).
                                  map_option user_login a = Some (user_login s)
                            then AlreadyAssignedSelf else AlreadyAssignedOther))"
    using start_assigned [OF _ _ assms, of ctx _ teammates] by blast
  have rejected: "\<exists>w e. start ctx issue sender teammates = (w, Inl e)"
  proof (cases sender)
    case None
    with none show ?thesis by blast
  next
    case (Some s)
    show ?thesis
    proof (cases "body_is_parent issue")
      case True
      with parent Some show ?thesis
        by (cases "createComment ctx parent_issue_comment") auto
    next
      case False
      with closed assigned Some show ?thesis
        by (cases "issue_state issue = ISSUE_TYPE_CLOSED") auto
    qed
  qed
  from rejected none parent closed assigned show ?thesis
    by (simp only: message.simps)
qed

theorem already_assigned_rejected_witness:
  "start example_context assigned_issue (Some alice) [] = ([], Inl AlreadyAssignedOther)
   \<and> start example_context assigned_issue (Some bob) [] = ([], Inl AlreadyAssignedSelf)
   \<and> start example_context closed_assigned_issue (Some bob) [] = ([], Inl IssueClosed)"
proof -
  have ne: "issue_assignees assigned_issue \<noteq> []"
    by (simp add: assigned_issue_assignees)
  have ne': "issue_assignees closed_assigned_issue \<noteq> []"
    by code_simp
  have other: "\<not> (\<exists>a\<in>set (issue_assignees assigned_issue).
                    map_option user_login a = Some (user_login alice))"
    by (simp add: assigned_issue_assignees alice_def bob_def)
  have self: "\<exists>a\<in>set (issue_assignees assigned_issue).
                map_option user_login a = Some (user_login bob)"
    by (simp add: assigned_issue_assignees)
  note rule = already_assigned_rejected [THEN conjunct2, THEN conjunct2, THEN conjunct2]
  from rule [OF ne, of "Some alice" example_context "[]", THEN conjunct2, THEN conjunct1]
    assigned_issue_no_parent assigned_issue_open other
  have a: "start example_context assigned_issue (Some alice) [] = ([], Inl AlreadyAssignedOther)"
    by simp
  from rule [OF ne, of "Some bob" example_context "[]", THEN conjunct2, THEN conjunct1]
    assigned_issue_no_parent assigned_issue_open self
  have b: "start example_context assigned_issue (Some bob) [] = ([], Inl AlreadyAssignedSelf)"
    by simp
  from rule [OF ne', of "Some bob" example_context "[]", THEN conjunct1]
    closed_assigned_no_parent closed_assigned_closed
  have c: "start example_context closed_assigned_issue (Some bob) [] = ([], Inl IssueClosed)"
    by simp
  from a b c show ?thesis by (intro conjI)
qed

text \<open>
  C9. A request on an issue without a label that starts with \<open>Price: \<close> is rejected, and
  no assignee has been written. The only write that can precede a rejection is the
  comment of the parent gate; when the rejection is the one of the price gate, nothing
  has been written.
\<close>

theorem no_price_label_rejected:
  assumes "\<forall>l\<in>set (issue_labels issue). \<not> startsWith (label_name l) ''Price: ''"
  shows "\<exists>w e. start ctx issue sender teammates = (w, Inl e)
           \<and> (\<forall>n us. AddAssignees n us \<notin> set w)
           \<and> (w = [] \<or> (w = [CreateComment parent_issue_comment] \<and> e = ParentIssue))
           \<and> (e = NoPriceLabel \<longrightarrow> w = [])"
proof -
  from assms have "priceLabel_of (issue_labels issue) = None"
    by (simp add: priceLabel_of_None)
  from start_shape [OF this, of ctx sender teammates]
  obtain w e where *: "start ctx issue sender teammates = (w, Inl e)"
     "w = [] \<or> (w = [CreateComment parent_issue_comment] \<and> e = ParentIssue)"
     "e = NoPriceLabel \<longrightarrow> w = []" by blast
  then have "\<forall>n us. AddAssignees n us \<notin> set w" by auto
  with * show ?thesis by blast
qed

theorem no_price_label_rejected_witness:
  "\<exists>w e. start example_context unpriced_issue (Some alice) [] = (w, Inl e)
         \<and> (\<forall>n us. AddAssignees n us \<notin> set w)
         \<and> (w = [] \<or> (w = [CreateComment parent_issue_comment] \<and> e = ParentIssue))
         \<and> (e = NoPriceLabel \<longrightarrow> w = [])"
  by (rule no_price_label_rejected [OF unpriced_issue_labels])

text \<open>
  C10, as stated, fails: both implementations read the same open pull request, which has no
  review and was opened less than the tolerance ago; the first counts it as approved, the
  second does not count it.
\<close>

theorem implementations_differ:
  "getOpenedPullRequestsForUser unreviewed_context ''alice'' = Inr [example_pull]
   \<and> getOpenedPullRequests unreviewed_context ''alice'' = Inr [example_pull]
   \<and> getAvailableOpenedPullRequests unreviewed_context ''alice'' = Inr ([example_pull], [])
   \<and> getAvailableOpenedPullRequests_rest unreviewed_context ''alice'' = Inr ([], [])"
  by code_simp

text \<open>
  C10, amended. The two implementations return the same approved list and as many changes
  entries as each other when no \<open>reviewDelayTolerance\<close> is configured (both lists are
  empty), and when the tolerance is valid, both read the same open pull requests, and
  every one of them has plain reviews in the sense of \<open>plain_reviews\<close>.
\<close>

theorem implementations_agree_on_plain_reviews:
  assumes "reviewDelayTolerance ctx = []
           \<or> (getTimeValue ctx (reviewDelayTolerance ctx) = Inr tolerance
              \<and> getOpenedPullRequestsForUser ctx username = Inr openedPullRequests
              \<and> getOpenedPullRequests ctx username = Inr openedPullRequests
              \<and> list_all (plain_reviews ctx tolerance) openedPullRequests)"
  shows "\<exists>approved changes changes'.
           getAvailableOpenedPullRequests ctx username = Inr (approved, changes)
         \<and> getAvailableOpenedPullRequests_rest ctx username = Inr (approved, changes')
         \<and> length changes = length changes'"
proof (cases "reviewDelayTolerance ctx = []")
  case True
  then have "getAvailableOpenedPullRequests ctx username = Inr ([], [])"
    "getAvailableOpenedPullRequests_rest ctx username = Inr ([], [])"
    by (simp_all add: getAvailableOpenedPullRequests_def getAvailableOpenedPullRequests_rest_def)
  moreover have "length ([]::item list) = length ([]::review list)" by simp
  ultimately show ?thesis by blast
next
  case False
  with assms have a: "getTimeValue ctx (reviewDelayTolerance ctx) = Inr tolerance"
    "getOpenedPullRequestsForUser ctx username = Inr openedPullRequests"
    "getOpenedPullRequests ctx username = Inr openedPullRequests"
    "list_all (plain_reviews ctx tolerance) openedPullRequests" by simp_all
  have "length ([]::item list) = length ([]::review list)" by simp
  from agree_loop [OF a(1) a(4) this, of "[]"] show ?thesis
    using False a(2,3)
    by (simp add: getAvailableOpenedPullRequests_def getAvailableOpenedPullRequests_rest_def)
qed

theorem implementations_agree_on_plain_reviews_witness:
  "\<exists>approved changes changes'.
     getAvailableOpenedPullRequests approved_context ''alice'' = Inr (approved, changes)
   \<and> getAvailableOpenedPullRequests_rest approved_context ''alice'' = Inr (approved, changes')
   \<and> length changes = length changes'"
proof (rule implementations_agree_on_plain_reviews)
  show "reviewDelayTolerance approved_context = []
        \<or> (getTimeValue approved_context (reviewDelayTolerance approved_context) = Inr 86400000
           \<and> getOpenedPullRequestsForUser approved_context ''alice'' = Inr [example_pull]
           \<and> getOpenedPullRequests approved_context ''alice'' = Inr [example_pull]
           \<and> list_all (plain_reviews approved_context 86400000) [example_pull])"
    using approved_tolerance approved_pulls approved_pulls_rest approved_plain by simp
qed

end
